theory Spec2Isabelle
  imports Main "HOL-Library.Word"
begin

unbundle bit_operations_syntax

section \<open>The CBOR decoding primitives of \<^verbatim>\<open>src/cbor_decode.c\<close>\<close>

text \<open>
  The decoders work on three pieces of caller-owned state: the read pointer
  \<^verbatim>\<open>*pp_payload\<close>, the element budget \<^verbatim>\<open>*p_elem_count\<close> and the result storage.
  Pointers are addresses in a byte-addressed memory \<open>mem\<close>; the input buffer is the
  address range from the initial read pointer up to (excluding) \<^verbatim>\<open>p_payload_end\<close>.
  Addresses are natural numbers, so pointer arithmetic never wraps (C leaves a wrapping
  pointer undefined).  \<^verbatim>\<open>size_t\<close> is 32 bits wide, as the \<^verbatim>\<open>_Static_assert\<close> in
  \<^verbatim>\<open>size_decode\<close> demands.

  The field \<open>reads\<close> is a ghost log: every address the code dereferences through
  \<^verbatim>\<open>*pp_payload\<close> is appended to it, in program order.  The code never inspects it.

  \<^verbatim>\<open>cbor_decode_trace\<close>, \<^verbatim>\<open>cbor_decode_print\<close> and \<^verbatim>\<open>cbor_decode_assert\<close> come from
  \<^verbatim>\<open>cbor_decode.h\<close>, which is not part of the source tree at hand.
  Modelled from the spec: these hooks are for observability only and have no effect on
  behaviour, so they are omitted from the model.
\<close>

type_synonym byte = "8 word"

record decode_state =
  payload :: nat
  elem_count :: "32 word"
  reads :: "nat list"

definition CBOR_MAJOR_TYPE_PINT :: byte where [simp]: "CBOR_MAJOR_TYPE_PINT = 0"
definition CBOR_MAJOR_TYPE_NINT :: byte where [simp]: "CBOR_MAJOR_TYPE_NINT = 1"
definition CBOR_MAJOR_TYPE_BSTR :: byte where [simp]: "CBOR_MAJOR_TYPE_BSTR = 2"
definition CBOR_MAJOR_TYPE_TSTR :: byte where [simp]: "CBOR_MAJOR_TYPE_TSTR = 3"
definition CBOR_MAJOR_TYPE_LIST :: byte where [simp]: "CBOR_MAJOR_TYPE_LIST = 4"
definition CBOR_MAJOR_TYPE_MAP :: byte where [simp]: "CBOR_MAJOR_TYPE_MAP = 5"
definition CBOR_MAJOR_TYPE_TAG :: byte where [simp]: "CBOR_MAJOR_TYPE_TAG = 6"
definition CBOR_MAJOR_TYPE_PRIM :: byte where [simp]: "CBOR_MAJOR_TYPE_PRIM = 7"

definition VALUE_IN_HEADER :: byte where [simp]: "VALUE_IN_HEADER = 23"
definition BOOL_TO_PRIM :: byte where [simp]: "BOOL_TO_PRIM = 20"

definition additional_len :: "byte \<Rightarrow> 32 word" where
  "additional_len additional =
     (if additional = 24 then 1
      else if additional = 25 then 2
      else if additional = 26 then 4
      else if additional = 27 then 8
      else 0)"

definition MAJOR_TYPE :: "byte \<Rightarrow> byte" where
  "MAJOR_TYPE header_byte = (drop_bit 5 header_byte) AND 0x7"

definition ADDITIONAL :: "byte \<Rightarrow> byte" where
  "ADDITIONAL header_byte = header_byte AND 0x1F"

text \<open>\<^verbatim>\<open>**pp_payload\<close>: the byte under the read pointer, with the access logged.\<close>

definition deref_payload :: "(nat \<Rightarrow> byte) \<Rightarrow> decode_state \<Rightarrow> byte \<times> decode_state" where
  "deref_payload mem s = (mem (payload s), s\<lparr>reads := reads s @ [payload s]\<rparr>)"

text \<open>The body of \<^verbatim>\<open>FAIL_AND_DECR_IF\<close> when its condition holds: step the read pointer back.\<close>

definition decr_payload :: "decode_state \<Rightarrow> decode_state" where
  "decr_payload s = s\<lparr>payload := payload s - 1\<rparr>"

subsection \<open>Result storage as bytes\<close>

text \<open>
  \<^verbatim>\<open>value_extract\<close> receives its destination as \<^verbatim>\<open>void *\<close> plus a length and fills it
  bytewise; its callers read the same storage back as \<^verbatim>\<open>uint32_t\<close>, \<^verbatim>\<open>int32_t\<close>,
  \<^verbatim>\<open>uint64_t\<close> or \<^verbatim>\<open>double\<close>.  A destination is therefore a list of bytes in address
  order, and the host's byte order (\<^verbatim>\<open>CONFIG_BIG_ENDIAN\<close> defined or not) is the
  parameter \<open>big_endian\<close> of every function below.

  \<open>load_word\<close> reads a destination as an unsigned integer of the host, as
  \<^verbatim>\<open>*(uint32_t *)p_result\<close> does; \<open>store_word\<close> gives the \<open>n\<close> bytes that hold an
  integer on the host.  \<open>be_value bs\<close> is the number that the bytes \<open>bs\<close> denote with the
  most significant byte first; it serves to state what a destination of any size holds.
\<close>

definition be_value :: "byte list \<Rightarrow> nat" where
  "be_value bs = foldl (\<lambda>acc b. acc * 256 + unat b) 0 bs"

definition load_word :: "bool \<Rightarrow> byte list \<Rightarrow> 'a::len word" where
  "load_word big_endian bs =
     foldl (\<lambda>acc b. push_bit 8 acc OR ucast b) 0 (if big_endian then bs else rev bs)"

definition store_word :: "bool \<Rightarrow> nat \<Rightarrow> 'a::len word \<Rightarrow> byte list" where
  "store_word big_endian n w =
     (let le = map (\<lambda>i. ucast (drop_bit (8 * i) w)) [0..<n]
      in if big_endian then rev le else le)"

text \<open>\<^verbatim>\<open>memset(p_result, 0, result_len)\<close>\<close>

definition memset0 :: "byte list \<Rightarrow> nat \<Rightarrow> byte list" where
  "memset0 p_result result_len = replicate result_len 0 @ drop result_len p_result"

text \<open>
  The two variants of the copy of the extension bytes.  Little-endian host: the loop
  \<^verbatim>\<open>p_u8_result[i] = (*pp_payload)[len - i - 1]\<close> for \<open>i\<close> from 0 below \<open>len\<close>.
  Big-endian host: \<^verbatim>\<open>memcpy(&p_u8_result[result_len - len], *pp_payload, len)\<close>.
\<close>

definition copy_reversed :: "(nat \<Rightarrow> byte) \<Rightarrow> nat \<Rightarrow> nat \<Rightarrow> byte list \<Rightarrow> byte list" where
  "copy_reversed mem p len r = fold (\<lambda>i r. r[i := mem (p + (len - i - 1))]) [0..<len] r"

definition copy_reversed_reads :: "nat \<Rightarrow> nat \<Rightarrow> nat list" where
  "copy_reversed_reads p len = map (\<lambda>i. p + (len - i - 1)) [0..<len]"

definition memcpy_tail :: "(nat \<Rightarrow> byte) \<Rightarrow> nat \<Rightarrow> nat \<Rightarrow> nat \<Rightarrow> byte list \<Rightarrow> byte list" where
  "memcpy_tail mem p len result_len r =
     fold (\<lambda>i r. r[result_len - len + i := mem (p + i)]) [0..<len] r"

definition memcpy_reads :: "nat \<Rightarrow> nat \<Rightarrow> nat list" where
  "memcpy_reads p len = map (\<lambda>i. p + i) [0..<len]"

subsection \<open>\<^verbatim>\<open>value_extract\<close>\<close>

text \<open>
  Returns the C return value, the state afterwards and the content of the destination
  afterwards.  The destination is written before the two checks on the extension, so a
  failing call can leave it changed.  Callers pass \<open>result_len\<close> 4 or 8 with a
  destination of that size.
\<close>

definition value_extract ::
  "bool \<Rightarrow> (nat \<Rightarrow> byte) \<Rightarrow> nat \<Rightarrow> decode_state \<Rightarrow> byte list \<Rightarrow> nat
     \<Rightarrow> bool \<times> decode_state \<times> byte list" where
  "value_extract big_endian mem p_payload_end s p_result result_len =
     (let (header_byte, s0) = deref_payload mem s;
          additional = ADDITIONAL header_byte;
          s1 = s0\<lparr>payload := payload s0 + 1\<rparr>
      in if elem_count s1 = 0 then (False, decr_payload s1, p_result)
         else if payload s1 > p_payload_end then (False, decr_payload s1, p_result)
         else
           let r0 = memset0 p_result result_len;
               r1 = (if big_endian then r0[result_len - 1 := additional]
                     else r0[0 := additional])
           in if additional > VALUE_IN_HEADER then
                let len = unat (additional_len additional)
                in if len > result_len then (False, decr_payload s1, r1)
                   else if payload s1 + len > p_payload_end then (False, decr_payload s1, r1)
                   else
                     let r2 = (if big_endian
                               then memcpy_tail mem (payload s1) len result_len r1
                               else copy_reversed mem (payload s1) len r1);
                         s2 = s1\<lparr>reads := reads s1 @
                                   (if big_endian then memcpy_reads (payload s1) len
                                    else copy_reversed_reads (payload s1) len)\<rparr>;
                         s3 = s2\<lparr>payload := payload s2 + len\<rparr>
                     in (True, s3\<lparr>elem_count := elem_count s3 - 1\<rparr>, r2)
              else (True, s1\<lparr>elem_count := elem_count s1 - 1\<rparr>, r1))"

subsection \<open>Integer decoders\<close>

text \<open>
  \<^verbatim>\<open>PTR_VALUE_IN_RANGE(type, p_res, p_min, p_max)\<close> for \<^verbatim>\<open>int32_t\<close> and \<^verbatim>\<open>uint32_t\<close>.
  A constraint pointer is \<open>None\<close> when it is \<^verbatim>\<open>NULL\<close> and \<open>Some v\<close> when it points to
  \<open>v\<close>.
\<close>

definition value_in_range_int32 :: "32 word \<Rightarrow> 32 word option \<Rightarrow> 32 word option \<Rightarrow> bool" where
  "value_in_range_int32 res p_min p_max =
     ((case p_min of None \<Rightarrow> True | Some m \<Rightarrow> sint res \<ge> sint m)
      \<and> (case p_max of None \<Rightarrow> True | Some m \<Rightarrow> sint res \<le> sint m))"

definition value_in_range_uint32 :: "32 word \<Rightarrow> 32 word option \<Rightarrow> 32 word option \<Rightarrow> bool" where
  "value_in_range_uint32 res p_min p_max =
     ((case p_min of None \<Rightarrow> True | Some m \<Rightarrow> res \<ge> m)
      \<and> (case p_max of None \<Rightarrow> True | Some m \<Rightarrow> res \<le> m))"

text \<open>
  The 32-bit decoders take the old content of \<^verbatim>\<open>*p_result\<close> and return the new one.
\<close>

definition int32_decode ::
  "bool \<Rightarrow> (nat \<Rightarrow> byte) \<Rightarrow> nat \<Rightarrow> decode_state \<Rightarrow> 32 word \<Rightarrow> 32 word option \<Rightarrow> 32 word option
     \<Rightarrow> bool \<times> decode_state \<times> 32 word" where
  "int32_decode big_endian mem p_payload_end s p_result p_min_value p_max_value =
     (let (header_byte, s0) = deref_payload mem s;
          major_type = MAJOR_TYPE header_byte;
          (ok, s1, bytes) =
             value_extract big_endian mem p_payload_end s0 (store_word big_endian 4 p_result) 4;
          r1 = load_word big_endian bytes
      in if \<not> ok then (False, s1, r1)
         else if sint r1 < 0 then (False, s1, r1)
         else
           let r2 = (if major_type = CBOR_MAJOR_TYPE_NINT then 1 - r1 else r1)
           in if \<not> value_in_range_int32 r2 p_min_value p_max_value then (False, s1, r2)
              else (True, s1, r2))"

definition intx32_decode ::
  "bool \<Rightarrow> (nat \<Rightarrow> byte) \<Rightarrow> nat \<Rightarrow> decode_state \<Rightarrow> 32 word \<Rightarrow> 32 word option \<Rightarrow> 32 word option
     \<Rightarrow> bool \<times> decode_state \<times> 32 word" where
  "intx32_decode big_endian mem p_payload_end s p_result p_min_value p_max_value =
     (let (header_byte, s0) = deref_payload mem s;
          major_type = MAJOR_TYPE header_byte
      in if major_type \<noteq> CBOR_MAJOR_TYPE_PINT \<and> major_type \<noteq> CBOR_MAJOR_TYPE_NINT
         then (False, s0, p_result)
         else int32_decode big_endian mem p_payload_end s0 p_result p_min_value p_max_value)"

definition uint32_decode ::
  "bool \<Rightarrow> (nat \<Rightarrow> byte) \<Rightarrow> nat \<Rightarrow> decode_state \<Rightarrow> 32 word \<Rightarrow> 32 word option \<Rightarrow> 32 word option
     \<Rightarrow> bool \<times> decode_state \<times> 32 word" where
  "uint32_decode big_endian mem p_payload_end s p_result p_min_value p_max_value =
     (let (ok, s1, bytes) =
             value_extract big_endian mem p_payload_end s (store_word big_endian 4 p_result) 4;
          r1 = load_word big_endian bytes
      in if \<not> ok then (False, s1, r1)
         else if \<not> value_in_range_uint32 r1 p_min_value p_max_value then (False, s1, r1)
         else (True, s1, r1))"

definition uintx32_decode ::
  "bool \<Rightarrow> (nat \<Rightarrow> byte) \<Rightarrow> nat \<Rightarrow> decode_state \<Rightarrow> 32 word \<Rightarrow> 32 word option \<Rightarrow> 32 word option
     \<Rightarrow> bool \<times> decode_state \<times> 32 word" where
  "uintx32_decode big_endian mem p_payload_end s p_result p_min_value p_max_value =
     (let (header_byte, s0) = deref_payload mem s;
          major_type = MAJOR_TYPE header_byte
      in if major_type \<noteq> CBOR_MAJOR_TYPE_PINT then (False, s0, p_result)
         else uint32_decode big_endian mem p_payload_end s0 p_result p_min_value p_max_value)"

definition size_decode ::
  "bool \<Rightarrow> (nat \<Rightarrow> byte) \<Rightarrow> nat \<Rightarrow> decode_state \<Rightarrow> 32 word \<Rightarrow> 32 word option \<Rightarrow> 32 word option
     \<Rightarrow> bool \<times> decode_state \<times> 32 word" where
  "size_decode big_endian mem p_payload_end s p_result p_min_value p_max_value =
     uint32_decode big_endian mem p_payload_end s p_result p_min_value p_max_value"

subsection \<open>String, list and primitive decoders\<close>

text \<open>
  Modelled from the spec: \<^verbatim>\<open>cbor_string_type_t\<close> is declared in \<^verbatim>\<open>cbor_decode.h\<close>,
  which is missing.  The spec describes a string view as a pair of a length and a
  pointer into the input buffer; the code uses the two fields \<^verbatim>\<open>len\<close> (assigned as a
  \<^verbatim>\<open>size_t\<close>) and \<^verbatim>\<open>value\<close> (assigned the read pointer).  They are called \<open>str_len\<close>
  and \<open>str_value\<close> here.
\<close>

record cbor_string_type_t =
  str_len :: "32 word"
  str_value :: nat

definition strx_start_decode ::
  "bool \<Rightarrow> (nat \<Rightarrow> byte) \<Rightarrow> nat \<Rightarrow> decode_state \<Rightarrow> cbor_string_type_t
     \<Rightarrow> 32 word option \<Rightarrow> 32 word option \<Rightarrow> bool \<times> decode_state \<times> cbor_string_type_t" where
  "strx_start_decode big_endian mem p_payload_end s p_result p_min_len p_max_len =
     (let (header_byte, s0) = deref_payload mem s;
          major_type = MAJOR_TYPE header_byte
      in if major_type \<noteq> CBOR_MAJOR_TYPE_BSTR \<and> major_type \<noteq> CBOR_MAJOR_TYPE_TSTR
         then (False, s0, p_result)
         else
           let (ok, s1, l) =
                 size_decode big_endian mem p_payload_end s0 (str_len p_result) p_min_len p_max_len;
               r1 = p_result\<lparr>str_len := l\<rparr>
           in if \<not> ok then (False, s1, r1)
              else (True, s1, r1\<lparr>str_value := payload s1\<rparr>))"

definition strx_decode ::
  "bool \<Rightarrow> (nat \<Rightarrow> byte) \<Rightarrow> nat \<Rightarrow> decode_state \<Rightarrow> cbor_string_type_t
     \<Rightarrow> 32 word option \<Rightarrow> 32 word option \<Rightarrow> bool \<times> decode_state \<times> cbor_string_type_t" where
  "strx_decode big_endian mem p_payload_end s p_result p_min_len p_max_len =
     (let (ok, s1, r1) =
            strx_start_decode big_endian mem p_payload_end s p_result p_min_len p_max_len
      in if \<not> ok then (False, s1, r1)
         else (True, s1\<lparr>payload := payload s1 + unat (str_len r1)\<rparr>, r1))"

text \<open>\<^verbatim>\<open>min_num\<close> and \<^verbatim>\<open>max_num\<close> are passed by value, so both bounds are always present.\<close>

definition list_start_decode ::
  "bool \<Rightarrow> (nat \<Rightarrow> byte) \<Rightarrow> nat \<Rightarrow> decode_state \<Rightarrow> 32 word \<Rightarrow> 32 word \<Rightarrow> 32 word
     \<Rightarrow> bool \<times> decode_state \<times> 32 word" where
  "list_start_decode big_endian mem p_payload_end s p_result min_num max_num =
     (let (header_byte, s0) = deref_payload mem s;
          major_type = MAJOR_TYPE header_byte
      in if major_type \<noteq> CBOR_MAJOR_TYPE_LIST \<and> major_type \<noteq> CBOR_MAJOR_TYPE_MAP
         then (False, s0, p_result)
         else uint32_decode big_endian mem p_payload_end s0 p_result (Some min_num) (Some max_num))"

text \<open>
  \<^verbatim>\<open>primx_decode\<close>: the destination is \<open>None\<close> for \<^verbatim>\<open>NULL\<close> and \<open>Some b\<close> for a
  pointer to a byte holding \<open>b\<close>.  The local \<^verbatim>\<open>val\<close> is uninitialised; its first
  content is never used (\<^verbatim>\<open>value_extract\<close> overwrites all four bytes before it
  succeeds, and after a failure \<^verbatim>\<open>val\<close> is dropped), so the model starts it at 0.
  The assignment \<^verbatim>\<open>*p_result = val\<close> converts \<^verbatim>\<open>uint32_t\<close> to \<^verbatim>\<open>uint8_t\<close>.
\<close>

definition primx_decode ::
  "bool \<Rightarrow> (nat \<Rightarrow> byte) \<Rightarrow> nat \<Rightarrow> decode_state \<Rightarrow> byte option
     \<Rightarrow> 32 word option \<Rightarrow> 32 word option \<Rightarrow> bool \<times> decode_state \<times> byte option" where
  "primx_decode big_endian mem p_payload_end s p_result p_min_result p_max_result =
     (let (header_byte, s0) = deref_payload mem s;
          major_type = MAJOR_TYPE header_byte
      in if major_type \<noteq> CBOR_MAJOR_TYPE_PRIM then (False, s0, p_result)
         else
           let (ok, s1, val) =
                 uint32_decode big_endian mem p_payload_end s0 0 p_min_result p_max_result
           in if \<not> ok then (False, s1, p_result)
              else (True, s1, (case p_result of None \<Rightarrow> None | Some old \<Rightarrow> Some (ucast val))))"

text \<open>
  \<^verbatim>\<open>boolx_decode\<close> reads one byte through each constraint pointer, adds
  \<^verbatim>\<open>BOOL_TO_PRIM\<close> in \<^verbatim>\<open>uint8_t\<close> and hands the addresses of the two one-byte locals
  to \<^verbatim>\<open>primx_decode\<close>, where \<^verbatim>\<open>uint32_decode\<close> reads four bytes through each.  The
  three bytes behind each local are whatever the stack holds; they are the parameters
  \<open>min_pad\<close> and \<open>max_pad\<close>.  The destination is a \<^verbatim>\<open>bool\<close> written through a
  \<^verbatim>\<open>uint8_t\<close> pointer; \<^verbatim>\<open>(*p_result) -= BOOL_TO_PRIM\<close> then computes in \<^verbatim>\<open>int\<close> and
  converts back to \<^verbatim>\<open>bool\<close>, which is true exactly for a nonzero difference.
\<close>

definition boolx_decode ::
  "bool \<Rightarrow> (nat \<Rightarrow> byte) \<Rightarrow> nat \<Rightarrow> decode_state \<Rightarrow> bool \<Rightarrow> byte \<Rightarrow> byte
     \<Rightarrow> byte list \<Rightarrow> byte list \<Rightarrow> bool \<times> decode_state \<times> bool" where
  "boolx_decode big_endian mem p_payload_end s p_result p_min_result p_max_result min_pad max_pad =
     (let min_result = p_min_result + BOOL_TO_PRIM;
          max_result = p_max_result + BOOL_TO_PRIM;
          (ok, s1, r) =
             primx_decode big_endian mem p_payload_end s (Some (if p_result then 1 else 0))
               (Some (load_word big_endian (min_result # min_pad)))
               (Some (load_word big_endian (max_result # max_pad)))
      in if \<not> ok then (False, s1, p_result)
         else (True, s1, (case r of None \<Rightarrow> p_result
                          | Some b \<Rightarrow> uint b - uint BOOL_TO_PRIM \<noteq> 0)))"

text \<open>
  \<^verbatim>\<open>double_decode\<close>: a \<^verbatim>\<open>double\<close> is kept as its 64-bit pattern.  The comparison of
  two doubles is the parameter \<open>double_le\<close>; \<^verbatim>\<open>a >= b\<close> is \<open>double_le b a\<close>.
\<close>

definition value_in_range_double ::
  "(64 word \<Rightarrow> 64 word \<Rightarrow> bool) \<Rightarrow> 64 word \<Rightarrow> 64 word option \<Rightarrow> 64 word option \<Rightarrow> bool" where
  "value_in_range_double double_le res p_min p_max =
     ((case p_min of None \<Rightarrow> True | Some m \<Rightarrow> double_le m res)
      \<and> (case p_max of None \<Rightarrow> True | Some m \<Rightarrow> double_le res m))"

definition double_decode ::
  "(64 word \<Rightarrow> 64 word \<Rightarrow> bool) \<Rightarrow> bool \<Rightarrow> (nat \<Rightarrow> byte) \<Rightarrow> nat \<Rightarrow> decode_state \<Rightarrow> 64 word
     \<Rightarrow> 64 word option \<Rightarrow> 64 word option \<Rightarrow> bool \<times> decode_state \<times> 64 word" where
  "double_decode double_le big_endian mem p_payload_end s p_result p_min_result p_max_result =
     (let (header_byte, s0) = deref_payload mem s;
          major_type = MAJOR_TYPE header_byte
      in if major_type \<noteq> CBOR_MAJOR_TYPE_PRIM then (False, s0, p_result)
         else
           let (ok, s1, bytes) =
                 value_extract big_endian mem p_payload_end s0 (store_word big_endian 8 p_result) 8;
               r1 = load_word big_endian bytes
           in if \<not> ok then (False, s1, r1)
              else if \<not> value_in_range_double double_le r1 p_min_result p_max_result
              then (False, s1, r1)
              else (True, s1, r1))"

text \<open>
  \<^verbatim>\<open>any_decode\<close> never touches \<^verbatim>\<open>p_result\<close>, \<^verbatim>\<open>p_min_result\<close> or \<^verbatim>\<open>p_max_result\<close>;
  the model hands the destination back unchanged.  The local \<^verbatim>\<open>value\<close> is
  uninitialised and starts at 0 here, for the reason given at \<open>primx_decode\<close>.
\<close>

definition any_decode ::
  "bool \<Rightarrow> (nat \<Rightarrow> byte) \<Rightarrow> nat \<Rightarrow> decode_state \<Rightarrow> 'r \<Rightarrow> 'c \<Rightarrow> 'c
     \<Rightarrow> bool \<times> decode_state \<times> 'r" where
  "any_decode big_endian mem p_payload_end s p_result p_min_result p_max_result =
     (let (header_byte, s0) = deref_payload mem s;
          major_type = MAJOR_TYPE header_byte;
          (ok, s1, bytes) =
             value_extract big_endian mem p_payload_end s0
               (store_word big_endian 8 (0 :: 64 word)) 8;
          val = (load_word big_endian bytes :: 64 word)
      in if \<not> ok then (False, s1, p_result)
         else if major_type = CBOR_MAJOR_TYPE_BSTR \<or> major_type = CBOR_MAJOR_TYPE_TSTR
                 \<or> major_type = CBOR_MAJOR_TYPE_LIST \<or> major_type = CBOR_MAJOR_TYPE_MAP
         then (True, s1\<lparr>payload := payload s1 + unat val\<rparr>, p_result)
         else (True, s1, p_result))"

subsection \<open>\<^verbatim>\<open>multi_decode\<close>\<close>

text \<open>
  Modelled from the spec: the callback type \<^verbatim>\<open>decoder_t\<close> is declared in the missing
  header; by the spec and by the call in \<^verbatim>\<open>multi_decode\<close> a callback gets the read
  pointer, the end pointer, the budget, its destination and the two constraint
  pointers, and returns success.  Here it is a function of the end pointer, the state,
  the destination and the two constraints.  The destinations are the slots
  \<^verbatim>\<open>(uint8_t *)p_result + i*result_len\<close>; \<open>p_result i\<close> is the content of slot \<open>i\<close>.
  The counters are \<^verbatim>\<open>size_t\<close>; \<open>i\<close> stays below \<open>max_decode\<close>, so nothing wraps and
  they are natural numbers here.  The result is the return value, the state, the value
  stored in \<^verbatim>\<open>*p_num_decode\<close> and the slots.
\<close>

function multi_decode_loop ::
  "nat \<Rightarrow> nat \<Rightarrow> (nat \<Rightarrow> decode_state \<Rightarrow> 'r \<Rightarrow> 'c \<Rightarrow> 'c \<Rightarrow> bool \<times> decode_state \<times> 'r)
     \<Rightarrow> nat \<Rightarrow> 'c \<Rightarrow> 'c \<Rightarrow> nat \<Rightarrow> decode_state \<Rightarrow> (nat \<Rightarrow> 'r)
     \<Rightarrow> bool \<times> decode_state \<times> nat \<times> (nat \<Rightarrow> 'r)" where
  "multi_decode_loop min_decode max_decode decoder p_payload_end p_min_result p_max_result
       i s p_result =
     (if i < max_decode then
        (let p_payload_bak = payload s;
             elem_count_bak = elem_count s;
             (ok, s1, r) = decoder p_payload_end s (p_result i) p_min_result p_max_result;
             p_result1 = p_result(i := r)
         in if \<not> ok then
              (let s2 = s1\<lparr>payload := p_payload_bak, elem_count := elem_count_bak\<rparr>
               in if i < min_decode then (False, s2, i, p_result1)
                  else (True, s2, i, p_result1))
            else multi_decode_loop min_decode max_decode decoder p_payload_end
                   p_min_result p_max_result (i + 1) s1 p_result1)
      else (True, s, max_decode, p_result))"
  by pat_completeness auto
termination
  by (relation "measure (\<lambda>(min_decode, max_decode, decoder, p_payload_end, p_min_result,
                           p_max_result, i, s, p_result). max_decode - i)") auto

declare multi_decode_loop.simps [simp del]

definition multi_decode ::
  "nat \<Rightarrow> nat \<Rightarrow> (nat \<Rightarrow> decode_state \<Rightarrow> 'r \<Rightarrow> 'c \<Rightarrow> 'c \<Rightarrow> bool \<times> decode_state \<times> 'r)
     \<Rightarrow> nat \<Rightarrow> decode_state \<Rightarrow> (nat \<Rightarrow> 'r) \<Rightarrow> 'c \<Rightarrow> 'c
     \<Rightarrow> bool \<times> decode_state \<times> nat \<times> (nat \<Rightarrow> 'r)" where
  "multi_decode min_decode max_decode decoder p_payload_end s p_result p_min_result p_max_result =
     multi_decode_loop min_decode max_decode decoder p_payload_end p_min_result p_max_result
       0 s p_result"

text \<open>
  A device for stating properties of \<^verbatim>\<open>multi_decode\<close>, not a function of the
  source: \<open>decode_n decoder e mn mx i k s p_result\<close> runs the callback on the slots
  \<open>i\<close>, \<open>i + 1\<close> and so on, \<open>k\<close> times in a row and is \<open>Some\<close> of the state and the
  slots reached when all \<open>k\<close> calls return true, \<open>None\<close> as soon as one returns false.
\<close>

fun decode_n ::
  "(nat \<Rightarrow> decode_state \<Rightarrow> 'r \<Rightarrow> 'c \<Rightarrow> 'c \<Rightarrow> bool \<times> decode_state \<times> 'r)
     \<Rightarrow> nat \<Rightarrow> 'c \<Rightarrow> 'c \<Rightarrow> nat \<Rightarrow> nat \<Rightarrow> decode_state \<Rightarrow> (nat \<Rightarrow> 'r)
     \<Rightarrow> (decode_state \<times> (nat \<Rightarrow> 'r)) option" where
  "decode_n decoder e mn mx i 0 s p_result = Some (s, p_result)"
| "decode_n decoder e mn mx i (Suc k) s p_result =
     (let (ok, s1, r) = decoder e s (p_result i) mn mx
      in if ok then decode_n decoder e mn mx (Suc i) k s1 (p_result(i := r)) else None)"

text \<open>
  A device for stating what a call leaves behind, not a function of the source: the
  read pointer and the budget are as before the call, or one item was extracted (the
  read pointer moved forward within the buffer and the budget went down by one).
\<close>

definition unchanged_or_extracted :: "nat \<Rightarrow> decode_state \<Rightarrow> decode_state \<Rightarrow> bool" where
  "unchanged_or_extracted e s s' \<longleftrightarrow>
     (payload s' = payload s \<and> elem_count s' = elem_count s)
     \<or> (payload s < payload s' \<and> payload s' \<le> e \<and> elem_count s \<noteq> 0
        \<and> elem_count s' = elem_count s - 1)"

text \<open>
  A device for stating where a call reads, not a function of the source: every address
  in the log after the call was in the log before it or lies in the buffer, from the
  read pointer of before the call up to the end pointer.
\<close>

definition reads_within :: "nat \<Rightarrow> decode_state \<Rightarrow> decode_state \<Rightarrow> bool" where
  "reads_within e s s' \<longleftrightarrow> set (reads s') \<subseteq> set (reads s) \<union> {payload s ..< e}"

text \<open>The memory that holds the bytes \<open>bs\<close> from address 0 on, and zeros behind them.\<close>

definition mem_of :: "byte list \<Rightarrow> nat \<Rightarrow> byte" where
  "mem_of bs a = (if a < length bs then bs ! a else 0)"

definition start_state :: "32 word \<Rightarrow> decode_state" where
  "start_state budget = \<lparr>payload = 0, elem_count = budget, reads = []\<rparr>"

section \<open>Auxiliary facts\<close>

subsection \<open>Lists and bytes\<close>

lemma fold_update_range:
  "off + k \<le> length r \<Longrightarrow>
     fold (\<lambda>i r. r[off + i := f i]) [0..<k] r = take off r @ map f [0..<k] @ drop (off + k) r"
proof (induction k)
  case 0
  then show ?case by simp
next
  case (Suc k)
  then have len: "off + k < length r" by simp
  have "fold (\<lambda>i r. r[off + i := f i]) [0..<Suc k] r
          = (take off r @ map f [0..<k] @ drop (off + k) r)[off + k := f k]"
    using Suc by simp
  also have "\<dots> = take off r @ map f [0..<k] @ (drop (off + k) r)[0 := f k]"
    using len by (simp add: list_update_append)
  also have "(drop (off + k) r)[0 := f k] = f k # drop (Suc (off + k)) r"
    using len by (simp add: Cons_nth_drop_Suc [symmetric])
  finally show ?case by simp
qed

lemma copy_reversed_eq:
  "len \<le> length r \<Longrightarrow>
     copy_reversed mem p len r = map (\<lambda>i. mem (p + (len - i - 1))) [0..<len] @ drop len r"
  using fold_update_range [of 0 len r "\<lambda>i. mem (p + (len - i - 1))"]
  by (simp add: copy_reversed_def)

lemma memcpy_tail_eq:
  "len \<le> n \<Longrightarrow> n \<le> length r \<Longrightarrow>
     memcpy_tail mem p len n r = take (n - len) r @ map (\<lambda>i. mem (p + i)) [0..<len] @ drop n r"
  using fold_update_range [of "n - len" len r "\<lambda>i. mem (p + i)"]
  by (simp add: memcpy_tail_def)

lemma be_value_append: "be_value (xs @ ys) = be_value xs * 256 ^ length ys + be_value ys"
  unfolding be_value_def
proof (induction ys rule: rev_induct)
  case Nil
  then show ?case by simp
next
  case (snoc y ys)
  then show ?case by (simp add: algebra_simps flip: append_assoc)
qed

lemma be_value_replicate0 [simp]: "be_value (replicate k 0) = 0"
  by (induction k) (simp_all add: be_value_def)

lemma rev_map_upt: "rev (map g [0..<k]) = map (\<lambda>i. g (k - i - 1)) [0..<k]"
  by (rule nth_equalityI) (simp_all add: rev_nth)

lemma header_le: "0 < n \<Longrightarrow> (replicate n 0 @ t)[0 := a] = a # replicate (n - Suc 0) (0::byte) @ t"
  by (cases n) simp_all

lemma header_be:
  "0 < n \<Longrightarrow> (replicate n 0 @ t)[n - Suc 0 := a] = replicate (n - Suc 0) (0::byte) @ a # t"
proof (cases n)
  case 0
  assume "0 < n"
  with 0 show ?thesis by simp
next
  case (Suc k)
  have "replicate (Suc k) (0::byte) = replicate k 0 @ [0]"
    by (simp add: replicate_append_same)
  then have "(replicate (Suc k) 0 @ t)[k := a] = replicate k (0::byte) @ a # t"
    by (simp add: list_update_append del: replicate_Suc)
  with Suc show ?thesis by simp
qed

subsection \<open>Signed reading of 32-bit words\<close>

lemma sint_neg_iff_bit31: "sint (w :: 32 word) < 0 \<longleftrightarrow> bit w 31"
  using bit_last_iff [of w] by simp

lemma sint_eq_uint_32:
  assumes "\<not> bit (w :: 32 word) 31"
  shows "sint w = uint w"
proof -
  have "0 \<le> sint w" using assms by (simp add: sint_neg_iff_bit31 [symmetric])
  moreover have "sint w < 2 ^ 32" using sint_less [of w] by simp
  ultimately have "take_bit 32 (sint w) = sint w" by (rule take_bit_int_eq_self)
  then show ?thesis using uint_sint [of w] by simp
qed

lemma uint_lt_2p31:
  assumes "\<not> bit (w :: 32 word) 31"
  shows "uint w < 2 ^ 31"
  using sint_less [of w] sint_eq_uint_32 [OF assms] by simp

lemma sint_one_minus:
  assumes "\<not> bit (w :: 32 word) 31"
  shows "sint (1 - w) = 1 - uint w"
proof -
  have w: "0 \<le> uint w" "uint w < 2 ^ 31" using uint_lt_2p31 [OF assms] by simp_all
  have "1 - w = (word_of_int (1 - uint w) :: 32 word)" by simp
  then have "sint (1 - w) = signed_take_bit 31 (1 - uint w)"
    using sint_sbintrunc' [of "1 - uint w", where 'a = 32] by simp
  also have "\<dots> = 1 - uint w"
  proof (rule signed_take_bit_int_eq_self)
    have "0 \<le> uint w" by simp
    then show "- (2 ^ 31) \<le> 1 - uint w" using w(2) by simp
    have "0 \<le> uint w" by simp
    moreover have "(1::int) < 2 ^ 31" by simp
    ultimately show "1 - uint w < 2 ^ 31" by linarith
  qed
  finally show ?thesis .
qed

subsection \<open>\<^verbatim>\<open>value_extract\<close>\<close>

lemma value_extract_ok_iff:
  "fst (value_extract be mem e s r n) \<longleftrightarrow>
     elem_count s \<noteq> 0 \<and> payload s < e \<and>
     (ADDITIONAL (mem (payload s)) > 23 \<longrightarrow>
        unat (additional_len (ADDITIONAL (mem (payload s)))) \<le> n
        \<and> payload s + 1 + unat (additional_len (ADDITIONAL (mem (payload s)))) \<le> e)"
  by (auto simp: value_extract_def deref_payload_def decr_payload_def Let_def)

lemma value_extract_fail_state:
  "\<not> fst (value_extract be mem e s r n) \<Longrightarrow>
     fst (snd (value_extract be mem e s r n)) = s\<lparr>reads := reads s @ [payload s]\<rparr>"
  by (auto simp: value_extract_def deref_payload_def decr_payload_def Let_def split: if_splits)

lemma value_extract_ok_payload:
  "fst (value_extract be mem e s r n) \<Longrightarrow>
     payload (fst (snd (value_extract be mem e s r n))) =
       payload s + 1 + (if ADDITIONAL (mem (payload s)) > 23 then unat (additional_len (ADDITIONAL (mem (payload s)))) else 0)"
  by (auto simp: value_extract_def deref_payload_def decr_payload_def Let_def split: if_splits)

lemma value_extract_ok_count:
  "fst (value_extract be mem e s r n) \<Longrightarrow>
     elem_count (fst (snd (value_extract be mem e s r n))) = elem_count s - 1"
  by (auto simp: value_extract_def deref_payload_def decr_payload_def Let_def split: if_splits)

lemma value_extract_ok_le_end:
  "fst (value_extract be mem e s r n) \<Longrightarrow> payload (fst (snd (value_extract be mem e s r n))) \<le> e"
  by (auto simp: value_extract_def deref_payload_def decr_payload_def Let_def split: if_splits)

lemma value_extract_ok_result:
  "fst (value_extract be mem e s r n) \<Longrightarrow>
     snd (snd (value_extract be mem e s r n)) =
       (let a = ADDITIONAL (mem (payload s));
            len = unat (additional_len a);
            r0 = replicate n 0 @ drop n r;
            r1 = (if be then r0[n - 1 := a] else r0[0 := a])
        in if a > 23 then (if be then memcpy_tail mem (payload s + 1) len n r1
                           else copy_reversed mem (payload s + 1) len r1)
           else r1)"
  by (auto simp: value_extract_def deref_payload_def decr_payload_def memset0_def Let_def split: if_splits)

lemma value_extract_ok_len:
  "fst (value_extract be mem e s r n) \<Longrightarrow> ADDITIONAL (mem (payload s)) > 23 \<Longrightarrow>
     unat (additional_len (ADDITIONAL (mem (payload s)))) \<le> n"
  by (auto simp: value_extract_def deref_payload_def decr_payload_def memset0_def Let_def split: if_splits)

lemma value_extract_result:
  assumes ok: "value_extract be mem e s r n = (True, s', r')" and n: "0 < n"
  shows "r' = (let a = ADDITIONAL (mem (payload s));
                   len = unat (additional_len a);
                   ext = map (\<lambda>i. mem (payload s + 1 + i)) [0..<len]
               in if a \<le> 23 \<or> len = 0
                  then (if be then replicate (n - 1) 0 @ [a] else a # replicate (n - 1) 0)
                  else (if be then replicate (n - len) 0 @ ext else rev ext @ replicate (n - len) 0))
              @ drop n r"
proof -
  define a where "a = ADDITIONAL (mem (payload s))"
  define len where "len = unat (additional_len a)"
  define ext where "ext = map (\<lambda>i. mem (payload s + 1 + i)) [0..<len]"
  define t where "t = drop n r"
  have fst_ok: "fst (value_extract be mem e s r n)" using ok by simp
  have r': "r' = snd (snd (value_extract be mem e s r n))" using ok by simp
  have res: "r' = (if a > 23 then (if be then memcpy_tail mem (payload s + 1) len n
                                           (if be then (replicate n 0 @ t)[n - 1 := a] else (replicate n 0 @ t)[0 := a])
                           else copy_reversed mem (payload s + 1) len (if be then (replicate n 0 @ t)[n - 1 := a] else (replicate n 0 @ t)[0 := a]))
           else (if be then (replicate n 0 @ t)[n - 1 := a] else (replicate n 0 @ t)[0 := a]))"
    using value_extract_ok_result [OF fst_ok] ok
    by (simp add: Let_def a_def len_def t_def)
  show ?thesis
  proof (cases "a \<le> 23 \<or> len = 0")
    case True
    then have "r' = (if be then (replicate n 0 @ t)[n - 1 := a] else (replicate n 0 @ t)[0 := a])"
      unfolding res by (auto simp: copy_reversed_def memcpy_tail_def)
    then show ?thesis
      using True n by (simp add: header_le header_be Let_def flip: a_def len_def t_def)
  next
    case False
    then have a: "a > 23" and len0: "0 < len" by auto
    have len: "len \<le> n"
      using value_extract_ok_len [OF fst_ok] a by (simp add: a_def len_def)
    show ?thesis
    proof (cases be)
      case True
      have "r' = memcpy_tail mem (payload s + 1) len n (replicate (n - 1) 0 @ a # t)"
        unfolding res using True a n by (simp add: header_be)
      also have "\<dots> = replicate (n - len) 0 @ ext @ t"
        using len len0 n by (simp add: memcpy_tail_eq ext_def min_def)
      finally show ?thesis
        using True False by (simp add: Let_def ext_def flip: a_def len_def t_def)
    next
      case be: False
      have "r' = copy_reversed mem (payload s + 1) len (a # replicate (n - 1) 0 @ t)"
        unfolding res using be a n by (simp add: header_le)
      also have "\<dots> = rev ext @ replicate (n - len) 0 @ t"
        using len len0 n by (simp add: copy_reversed_eq ext_def rev_map_upt drop_Cons')
      finally show ?thesis
        using be False by (simp add: Let_def ext_def flip: a_def len_def t_def)
    qed
  qed
qed

lemma additional_len_cases:
  "additional_len a = (if a = 24 then 1 else if a = 25 then 2 else if a = 26 then 4 else if a = 27 then 8 else 0)"
  by (simp add: additional_len_def)

lemma be_value_single [simp]: "be_value [a] = unat a"
  by (simp add: be_value_def)

lemma be_value_zeros_append [simp]: "be_value (replicate k 0 @ xs) = be_value xs"
  by (simp add: be_value_append)

lemma be_value_Cons_zeros: "be_value (a # replicate k 0) = unat a * 256 ^ k"
  using be_value_append [of "[a]" "replicate k 0"] by simp

subsection \<open>Integer decoders\<close>

lemma intx32_decode_unfold:
  "intx32_decode be mem e s p pmin pmax =
     (if MAJOR_TYPE (mem (payload s)) = CBOR_MAJOR_TYPE_PINT
         \<or> MAJOR_TYPE (mem (payload s)) = CBOR_MAJOR_TYPE_NINT
      then int32_decode be mem e (s\<lparr>reads := reads s @ [payload s]\<rparr>) p pmin pmax
      else (False, s\<lparr>reads := reads s @ [payload s]\<rparr>, p))"
  by (simp add: intx32_decode_def deref_payload_def Let_def)

subsection \<open>The read pointer after a successful call\<close>

lemma value_extract_True_le_end:
  "value_extract be mem e s r n = (True, s', r') \<Longrightarrow> payload s' \<le> e"
  using value_extract_ok_le_end [of be mem e s r n] by simp

lemma uint32_decode_True_extract:
  "uint32_decode be mem e s p mn mx = (True, s', v) \<Longrightarrow>
     \<exists>bytes. value_extract be mem e s (store_word be 4 p) 4 = (True, s', bytes)
              \<and> v = load_word be bytes \<and> value_in_range_uint32 v mn mx"
  by (auto simp: uint32_decode_def Let_def split: prod.splits if_splits)

lemma uint32_decode_True_le_end:
  "uint32_decode be mem e s p mn mx = (True, s', v) \<Longrightarrow> payload s' \<le> e"
  by (auto dest!: uint32_decode_True_extract value_extract_True_le_end)

lemma int32_decode_True_le_end:
  "int32_decode be mem e s p mn mx = (True, s', v) \<Longrightarrow> payload s' \<le> e"
  by (auto simp: int32_decode_def deref_payload_def Let_def split: prod.splits if_splits
           dest: value_extract_True_le_end)

lemma intx32_decode_True_le_end:
  "intx32_decode be mem e s p mn mx = (True, s', v) \<Longrightarrow> payload s' \<le> e"
  by (auto simp: intx32_decode_def deref_payload_def Let_def split: prod.splits if_splits
           dest: int32_decode_True_le_end)

lemma uintx32_decode_True_le_end:
  "uintx32_decode be mem e s p mn mx = (True, s', v) \<Longrightarrow> payload s' \<le> e"
  by (auto simp: uintx32_decode_def deref_payload_def Let_def split: prod.splits if_splits
           dest: uint32_decode_True_le_end)

lemma strx_start_decode_True:
  "strx_start_decode be mem e s p mn mx = (True, s', r) \<Longrightarrow>
     payload s' \<le> e \<and> str_value r = payload s'"
  by (auto simp: strx_start_decode_def size_decode_def deref_payload_def Let_def
           split: prod.splits if_splits dest: uint32_decode_True_le_end)

lemma strx_decode_True:
  "strx_decode be mem e s p mn mx = (True, s', r) \<Longrightarrow>
     str_value r \<le> e \<and> payload s' = str_value r + unat (str_len r)"
  by (auto simp: strx_decode_def Let_def split: prod.splits if_splits
           dest: strx_start_decode_True)

lemma list_start_decode_True_le_end:
  "list_start_decode be mem e s p mn mx = (True, s', v) \<Longrightarrow> payload s' \<le> e"
  by (auto simp: list_start_decode_def deref_payload_def Let_def split: prod.splits if_splits
           dest: uint32_decode_True_le_end)

lemma primx_decode_True_le_end:
  "primx_decode be mem e s p mn mx = (True, s', v) \<Longrightarrow> payload s' \<le> e"
  by (auto simp: primx_decode_def deref_payload_def Let_def split: prod.splits if_splits
           dest: uint32_decode_True_le_end)

lemma boolx_decode_True_le_end:
  "boolx_decode be mem e s p mn mx pad1 pad2 = (True, s', v) \<Longrightarrow> payload s' \<le> e"
  by (auto simp: boolx_decode_def Let_def split: prod.splits if_splits
           dest: primx_decode_True_le_end)

lemma double_decode_True_le_end:
  "double_decode dle be mem e s p mn mx = (True, s', v) \<Longrightarrow> payload s' \<le> e"
  by (auto simp: double_decode_def deref_payload_def Let_def split: prod.splits if_splits
           dest: value_extract_True_le_end)

lemma any_decode_True:
  "any_decode be mem e s p mn mx = (True, s', p') \<Longrightarrow>
     \<exists>s1 bytes.
        value_extract be mem e (s\<lparr>reads := reads s @ [payload s]\<rparr>)
          (store_word be 8 (0 :: 64 word)) 8 = (True, s1, bytes)
        \<and> payload s1 \<le> e
        \<and> payload s' = payload s1 +
             (if MAJOR_TYPE (mem (payload s)) \<in>
                   {CBOR_MAJOR_TYPE_BSTR, CBOR_MAJOR_TYPE_TSTR, CBOR_MAJOR_TYPE_LIST, CBOR_MAJOR_TYPE_MAP}
              then unat (load_word be bytes :: 64 word) else 0)"
  by (auto simp: any_decode_def deref_payload_def Let_def split: prod.splits if_splits
           dest: value_extract_True_le_end)

text \<open>
  What does hold after a successful call: \<^verbatim>\<open>value_extract\<close> and the decoders that only
  wrap it leave the read pointer at or below the end pointer; \<^verbatim>\<open>strx_decode\<close> and
  \<^verbatim>\<open>any_decode\<close> leave it at the position behind header and extension, which is at or
  below the end pointer, plus the decoded length (\<^verbatim>\<open>any_decode\<close>: for the major types
  byte string, text string, list and map only).
\<close>

lemma cursor_after_success:
  "(value_extract be mem e s r n = (True, s', r') \<longrightarrow> payload s' \<le> e)
   \<and> (intx32_decode be mem e s p32 mn mx = (True, s', v32) \<longrightarrow> payload s' \<le> e)
   \<and> (uintx32_decode be mem e s p32 mn mx = (True, s', v32) \<longrightarrow> payload s' \<le> e)
   \<and> (strx_start_decode be mem e s pstr mn mx = (True, s', rstr)
        \<longrightarrow> payload s' \<le> e \<and> str_value rstr = payload s')
   \<and> (list_start_decode be mem e s p32 lo hi = (True, s', v32) \<longrightarrow> payload s' \<le> e)
   \<and> (primx_decode be mem e s p8 mn mx = (True, s', v8) \<longrightarrow> payload s' \<le> e)
   \<and> (boolx_decode be mem e s pb bmn bmx pad1 pad2 = (True, s', vb) \<longrightarrow> payload s' \<le> e)
   \<and> (double_decode dle be mem e s pd dmn dmx = (True, s', vd) \<longrightarrow> payload s' \<le> e)
   \<and> (strx_decode be mem e s pstr mn mx = (True, s', rstr)
        \<longrightarrow> str_value rstr \<le> e \<and> payload s' = str_value rstr + unat (str_len rstr))
   \<and> (any_decode be mem e s pa amn amx = (True, s', pa')
        \<longrightarrow> (\<exists>s1 bytes.
               value_extract be mem e (s\<lparr>reads := reads s @ [payload s]\<rparr>)
                 (store_word be 8 (0 :: 64 word)) 8 = (True, s1, bytes)
               \<and> payload s1 \<le> e
               \<and> payload s' = payload s1 +
                    (if MAJOR_TYPE (mem (payload s)) \<in>
                          {CBOR_MAJOR_TYPE_BSTR, CBOR_MAJOR_TYPE_TSTR,
                           CBOR_MAJOR_TYPE_LIST, CBOR_MAJOR_TYPE_MAP}
                     then unat (load_word be bytes :: 64 word) else 0)))"
  using value_extract_True_le_end [of be mem e s r n s' r']
        intx32_decode_True_le_end [of be mem e s p32 mn mx s' v32]
        uintx32_decode_True_le_end [of be mem e s p32 mn mx s' v32]
        strx_start_decode_True [of be mem e s pstr mn mx s' rstr]
        list_start_decode_True_le_end [of be mem e s p32 lo hi s' v32]
        primx_decode_True_le_end [of be mem e s p8 mn mx s' v8]
        boolx_decode_True_le_end [of be mem e s pb bmn bmx pad1 pad2 s' vb]
        double_decode_True_le_end [of dle be mem e s pd dmn dmx s' vd]
        strx_decode_True [of be mem e s pstr mn mx s' rstr]
        any_decode_True [of be mem e s pa amn amx s' pa']
  by blast

lemma cursor_after_success_example:
  "value_extract False (mem_of [0x19, 0x01, 0x02]) 3 (start_state 1) [0, 0, 0, 0] 4
     = (True, \<lparr>payload = 3, elem_count = 0, reads = [0, 2, 1]\<rparr>, [0x02, 0x01, 0, 0])
   \<and> payload \<lparr>payload = 3, elem_count = 0, reads = [0, 2, 1]\<rparr> \<le> 3
   \<and> strx_decode False (mem_of [0x63, 0x61, 0x62, 0x63]) 4 (start_state 1)
        \<lparr>str_len = 0, str_value = 0\<rparr> None None
     = (True, \<lparr>payload = 4, elem_count = 0, reads = [0, 0]\<rparr>, \<lparr>str_len = 3, str_value = 1\<rparr>)
   \<and> (1 :: nat) \<le> 4 \<and> (4 :: nat) = 1 + unat (3 :: 32 word)
   \<and> any_decode False (mem_of [0x42, 0x61, 0x62]) 3 (start_state 1) () () ()
     = (True, \<lparr>payload = 3, elem_count = 0, reads = [0, 0]\<rparr>, ())"
proof -
  have a: "value_extract False (mem_of [0x19, 0x01, 0x02]) 3 (start_state 1) [0, 0, 0, 0] 4
     = (True, \<lparr>payload = 3, elem_count = 0, reads = [0, 2, 1]\<rparr>, [0x02, 0x01, 0, 0])"
    by code_simp
  have b: "strx_decode False (mem_of [0x63, 0x61, 0x62, 0x63]) 4 (start_state 1)
        \<lparr>str_len = 0, str_value = 0\<rparr> None None
     = (True, \<lparr>payload = 4, elem_count = 0, reads = [0, 0]\<rparr>, \<lparr>str_len = 3, str_value = 1\<rparr>)"
    by code_simp
  have c: "any_decode False (mem_of [0x42, 0x61, 0x62]) 3 (start_state 1) () () ()
     = (True, \<lparr>payload = 3, elem_count = 0, reads = [0, 0]\<rparr>, ())"
    by code_simp
  have "payload \<lparr>payload = 3, elem_count = 0, reads = [0, 2, 1]\<rparr> \<le> 3"
    using cursor_after_success [THEN conjunct1, rule_format, OF a] .
  moreover have "str_value \<lparr>str_len = 3, str_value = 1\<rparr> \<le> 4
      \<and> payload \<lparr>payload = 4, elem_count = 0, reads = [0, 0]\<rparr>
          = str_value \<lparr>str_len = 3, str_value = 1\<rparr> + unat (str_len \<lparr>str_len = 3, str_value = 1\<rparr>)"
    using cursor_after_success [THEN conjunct2, THEN conjunct2, THEN conjunct2, THEN conjunct2,
            THEN conjunct2, THEN conjunct2, THEN conjunct2, THEN conjunct2, THEN conjunct1,
            rule_format, OF b] .
  ultimately show ?thesis using a b c by simp
qed

subsection \<open>The addresses a call reads\<close>

lemma value_extract_at_end:
  "e \<le> payload s \<Longrightarrow>
     value_extract be mem e s r n = (False, s\<lparr>reads := reads s @ [payload s]\<rparr>, r)"
  by (simp add: value_extract_def deref_payload_def decr_payload_def Let_def)

lemma value_extract_reads:
  "reads (fst (snd (value_extract be mem e s r n))) =
     reads s @ payload s #
       (if fst (value_extract be mem e s r n) \<and> 23 < ADDITIONAL (mem (payload s))
        then (if be then memcpy_reads (payload s + 1) (unat (additional_len (ADDITIONAL (mem (payload s)))))
              else copy_reversed_reads (payload s + 1) (unat (additional_len (ADDITIONAL (mem (payload s))))))
        else [])"
  by (auto simp: value_extract_def deref_payload_def decr_payload_def Let_def)

lemma value_extract_reads_in_buffer:
  assumes "payload s < e"
  shows "set (reads (fst (snd (value_extract be mem e s r n)))) \<subseteq> set (reads s) \<union> {payload s ..< e}"
proof -
  have "fst (value_extract be mem e s r n) \<Longrightarrow> 23 < ADDITIONAL (mem (payload s)) \<Longrightarrow>
          payload s + 1 + unat (additional_len (ADDITIONAL (mem (payload s)))) \<le> e"
    by (simp add: value_extract_ok_iff)
  then show ?thesis
    using assms unfolding value_extract_reads
    by (auto simp: memcpy_reads_def copy_reversed_reads_def)
qed

lemma reads_within_log:
  "payload s < e \<Longrightarrow> reads_within e (s\<lparr>reads := reads s @ [payload s]\<rparr>) s' \<Longrightarrow> reads_within e s s'"
  by (auto simp: reads_within_def)

lemma reads_within_same [simp]: "reads_within e s s"
  by (simp add: reads_within_def)

lemma reads_within_payload [simp]: "reads_within e s (s'\<lparr>payload := x\<rparr>) = reads_within e s s'"
  by (simp add: reads_within_def)

lemma value_extract_reads_within:
  "payload s < e \<Longrightarrow> value_extract be mem e s r n = (ok, s', r') \<Longrightarrow> reads_within e s s'"
  using value_extract_reads_in_buffer [of s e be mem r n] by (simp add: reads_within_def)

lemma uint32_decode_reads_within:
  assumes "payload s < e" and "uint32_decode be mem e s p mn mx = (ok, s', v)"
  shows "reads_within e s s'"
  using assms(2)
  by (auto simp: uint32_decode_def Let_def split: prod.splits if_splits
           intro: value_extract_reads_within [OF assms(1)])

lemma int32_decode_reads_within:
  assumes "payload s < e" and "int32_decode be mem e s p mn mx = (ok, s', v)"
  shows "reads_within e s s'"
proof -
  let ?s0 = "s\<lparr>reads := reads s @ [payload s]\<rparr>"
  have p0: "payload ?s0 < e" using assms(1) by simp
  have "reads_within e ?s0 s'"
    using assms(2)
    by (auto simp: int32_decode_def deref_payload_def Let_def split: prod.splits if_splits
             intro: value_extract_reads_within [OF p0])
  then show ?thesis by (rule reads_within_log [OF assms(1)])
qed

lemma intx32_decode_reads_within:
  assumes "payload s < e" and "intx32_decode be mem e s p mn mx = (ok, s', v)"
  shows "reads_within e s s'"
proof -
  let ?s0 = "s\<lparr>reads := reads s @ [payload s]\<rparr>"
  have p0: "payload ?s0 < e" using assms(1) by simp
  have "reads_within e ?s0 s'"
    using assms(2)
    by (auto simp: intx32_decode_def deref_payload_def Let_def split: if_splits
             intro: int32_decode_reads_within [OF p0])
  then show ?thesis by (rule reads_within_log [OF assms(1)])
qed

lemma uintx32_decode_reads_within:
  assumes "payload s < e" and "uintx32_decode be mem e s p mn mx = (ok, s', v)"
  shows "reads_within e s s'"
proof -
  let ?s0 = "s\<lparr>reads := reads s @ [payload s]\<rparr>"
  have p0: "payload ?s0 < e" using assms(1) by simp
  have "reads_within e ?s0 s'"
    using assms(2)
    by (auto simp: uintx32_decode_def deref_payload_def Let_def split: if_splits
             intro: uint32_decode_reads_within [OF p0])
  then show ?thesis by (rule reads_within_log [OF assms(1)])
qed

lemma strx_start_decode_reads_within:
  assumes "payload s < e" and "strx_start_decode be mem e s p mn mx = (ok, s', v)"
  shows "reads_within e s s'"
proof -
  let ?s0 = "s\<lparr>reads := reads s @ [payload s]\<rparr>"
  have p0: "payload ?s0 < e" using assms(1) by simp
  have "reads_within e ?s0 s'"
    using assms(2)
    by (auto simp: strx_start_decode_def size_decode_def deref_payload_def Let_def
             split: prod.splits if_splits intro: uint32_decode_reads_within [OF p0])
  then show ?thesis by (rule reads_within_log [OF assms(1)])
qed

lemma strx_decode_reads_within:
  assumes "payload s < e" and "strx_decode be mem e s p mn mx = (ok, s', v)"
  shows "reads_within e s s'"
  using assms(2)
  by (auto simp: strx_decode_def Let_def split: prod.splits if_splits
           intro: strx_start_decode_reads_within [OF assms(1)])

lemma list_start_decode_reads_within:
  assumes "payload s < e" and "list_start_decode be mem e s p lo hi = (ok, s', v)"
  shows "reads_within e s s'"
proof -
  let ?s0 = "s\<lparr>reads := reads s @ [payload s]\<rparr>"
  have p0: "payload ?s0 < e" using assms(1) by simp
  have "reads_within e ?s0 s'"
    using assms(2)
    by (auto simp: list_start_decode_def deref_payload_def Let_def split: if_splits
             intro: uint32_decode_reads_within [OF p0])
  then show ?thesis by (rule reads_within_log [OF assms(1)])
qed

lemma primx_decode_reads_within:
  assumes "payload s < e" and "primx_decode be mem e s p mn mx = (ok, s', v)"
  shows "reads_within e s s'"
proof -
  let ?s0 = "s\<lparr>reads := reads s @ [payload s]\<rparr>"
  have p0: "payload ?s0 < e" using assms(1) by simp
  have "reads_within e ?s0 s'"
    using assms(2)
    by (auto simp: primx_decode_def deref_payload_def Let_def split: prod.splits if_splits
             intro: uint32_decode_reads_within [OF p0])
  then show ?thesis by (rule reads_within_log [OF assms(1)])
qed

lemma boolx_decode_reads_within:
  assumes "payload s < e" and "boolx_decode be mem e s p mn mx pad1 pad2 = (ok, s', v)"
  shows "reads_within e s s'"
  using assms(2)
  by (auto simp: boolx_decode_def Let_def split: prod.splits if_splits
           intro: primx_decode_reads_within [OF assms(1)])

lemma double_decode_reads_within:
  assumes "payload s < e" and "double_decode dle be mem e s p mn mx = (ok, s', v)"
  shows "reads_within e s s'"
proof -
  let ?s0 = "s\<lparr>reads := reads s @ [payload s]\<rparr>"
  have p0: "payload ?s0 < e" using assms(1) by simp
  have "reads_within e ?s0 s'"
    using assms(2)
    by (auto simp: double_decode_def deref_payload_def Let_def split: prod.splits if_splits
             intro: value_extract_reads_within [OF p0])
  then show ?thesis by (rule reads_within_log [OF assms(1)])
qed

lemma any_decode_reads_within:
  assumes "payload s < e" and "any_decode be mem e s p mn mx = (ok, s', v)"
  shows "reads_within e s s'"
proof -
  let ?s0 = "s\<lparr>reads := reads s @ [payload s]\<rparr>"
  have p0: "payload ?s0 < e" using assms(1) by simp
  have "reads_within e ?s0 s'"
    using assms(2)
    by (auto simp: any_decode_def deref_payload_def Let_def split: prod.splits if_splits
             intro: value_extract_reads_within [OF p0])
  then show ?thesis by (rule reads_within_log [OF assms(1)])
qed

subsection \<open>What a call leaves behind\<close>

lemma value_extract_False_unchanged:
  "value_extract be mem e s r n = (False, s', r') \<Longrightarrow>
     payload s' = payload s \<and> elem_count s' = elem_count s"
  using value_extract_fail_state [of be mem e s r n] by simp

lemma value_extract_True_extracted:
  "value_extract be mem e s r n = (True, s', r') \<Longrightarrow>
     payload s < payload s' \<and> payload s' \<le> e \<and> elem_count s \<noteq> 0
     \<and> elem_count s' = elem_count s - 1"
  using value_extract_ok_payload [of be mem e s r n] value_extract_ok_le_end [of be mem e s r n]
        value_extract_ok_count [of be mem e s r n] value_extract_ok_iff [of be mem e s r n]
  by simp

lemma value_extract_either:
  "value_extract be mem e s r n = (ok, s', r') \<Longrightarrow> unchanged_or_extracted e s s'"
  unfolding unchanged_or_extracted_def
  using value_extract_False_unchanged [of be mem e s r n s' r']
        value_extract_True_extracted [of be mem e s r n s' r']
  by (cases ok) simp_all

lemma unchanged_or_extracted_reads [simp]:
  "unchanged_or_extracted e (s\<lparr>reads := x\<rparr>) s' = unchanged_or_extracted e s s'"
  by (simp add: unchanged_or_extracted_def)

lemma unchanged_or_extracted_refl [simp]:
  "unchanged_or_extracted e s (s\<lparr>reads := x\<rparr>)"
  by (simp add: unchanged_or_extracted_def)

lemma uint32_decode_either:
  "uint32_decode be mem e s p mn mx = (ok, s', v) \<Longrightarrow> unchanged_or_extracted e s s'"
  by (auto simp: uint32_decode_def Let_def split: prod.splits if_splits
           dest: value_extract_either)

lemma int32_decode_either:
  "int32_decode be mem e s p mn mx = (ok, s', v) \<Longrightarrow> unchanged_or_extracted e s s'"
  by (auto simp: int32_decode_def deref_payload_def Let_def split: prod.splits if_splits
           dest: value_extract_either)

lemma intx32_decode_either:
  "intx32_decode be mem e s p mn mx = (ok, s', v) \<Longrightarrow> unchanged_or_extracted e s s'"
  by (auto simp: intx32_decode_def deref_payload_def Let_def split: if_splits
           dest: int32_decode_either)

lemma uintx32_decode_either:
  "uintx32_decode be mem e s p mn mx = (ok, s', v) \<Longrightarrow> unchanged_or_extracted e s s'"
  by (auto simp: uintx32_decode_def deref_payload_def Let_def split: if_splits
           dest: uint32_decode_either)

lemma strx_start_decode_either:
  "strx_start_decode be mem e s p mn mx = (ok, s', v) \<Longrightarrow> unchanged_or_extracted e s s'"
  by (auto simp: strx_start_decode_def size_decode_def deref_payload_def Let_def
           split: prod.splits if_splits dest: uint32_decode_either)

lemma list_start_decode_either:
  "list_start_decode be mem e s p lo hi = (ok, s', v) \<Longrightarrow> unchanged_or_extracted e s s'"
  by (auto simp: list_start_decode_def deref_payload_def Let_def split: if_splits
           dest: uint32_decode_either)

lemma primx_decode_either:
  "primx_decode be mem e s p mn mx = (ok, s', v) \<Longrightarrow> unchanged_or_extracted e s s'"
  by (auto simp: primx_decode_def deref_payload_def Let_def split: prod.splits if_splits
           dest: uint32_decode_either)

lemma boolx_decode_either:
  "boolx_decode be mem e s p mn mx pad1 pad2 = (ok, s', v) \<Longrightarrow> unchanged_or_extracted e s s'"
  by (auto simp: boolx_decode_def Let_def split: prod.splits if_splits
           dest: primx_decode_either)

lemma double_decode_either:
  "double_decode dle be mem e s p mn mx = (ok, s', v) \<Longrightarrow> unchanged_or_extracted e s s'"
  by (auto simp: double_decode_def deref_payload_def Let_def split: prod.splits if_splits
           dest: value_extract_either)

subsection \<open>The loop of \<^verbatim>\<open>multi_decode\<close>\<close>

lemma multi_decode_loop_ok:
  "i < max_decode \<Longrightarrow> decoder e s (res i) mn mx = (True, s1, r) \<Longrightarrow>
     multi_decode_loop min_decode max_decode decoder e mn mx i s res =
       multi_decode_loop min_decode max_decode decoder e mn mx (Suc i) s1 (res(i := r))"
  by (subst multi_decode_loop.simps) (simp add: Let_def)

lemma multi_decode_loop_fail:
  "i < max_decode \<Longrightarrow> decoder e s (res i) mn mx = (False, sf, rf) \<Longrightarrow>
     multi_decode_loop min_decode max_decode decoder e mn mx i s res =
       (min_decode \<le> i, sf\<lparr>payload := payload s, elem_count := elem_count s\<rparr>, i, res(i := rf))"
  by (subst multi_decode_loop.simps) (auto simp: Let_def)

lemma multi_decode_loop_done:
  "max_decode \<le> i \<Longrightarrow>
     multi_decode_loop min_decode max_decode decoder e mn mx i s res =
       (True, s, max_decode, res)"
  by (subst multi_decode_loop.simps) simp

lemma multi_decode_loop_steps:
  "decode_n decoder e mn mx i k s res = Some (sk, resk) \<Longrightarrow> i + k \<le> max_decode \<Longrightarrow>
     multi_decode_loop min_decode max_decode decoder e mn mx i s res =
       multi_decode_loop min_decode max_decode decoder e mn mx (i + k) sk resk"
proof (induction k arbitrary: i s res)
  case 0
  then show ?case by simp
next
  case (Suc k)
  obtain ok s1 r where d: "decoder e s (res i) mn mx = (ok, s1, r)"
    by (cases "decoder e s (res i) mn mx") auto
  with Suc.prems(1) have ok: ok
    and rest: "decode_n decoder e mn mx (Suc i) k s1 (res(i := r)) = Some (sk, resk)"
    by (auto split: if_splits)
  have "multi_decode_loop min_decode max_decode decoder e mn mx i s res =
          multi_decode_loop min_decode max_decode decoder e mn mx (Suc i) s1 (res(i := r))"
    using Suc.prems(2) d ok by (intro multi_decode_loop_ok) simp_all
  also have "\<dots> = multi_decode_loop min_decode max_decode decoder e mn mx (Suc i + k) sk resk"
    using Suc.prems(2) by (intro Suc.IH [OF rest]) simp
  finally show ?case by simp
qed

lemma multi_decode_loop_False:
  "multi_decode_loop min_decode max_decode decoder e mn mx i s res = (False, s', k, res') \<Longrightarrow>
     k < min_decode \<and> k < max_decode \<and> i \<le> k"
proof (induction min_decode max_decode decoder e mn mx i s res rule: multi_decode_loop.induct)
  case (1 min_decode max_decode decoder e mn mx i s res)
  show ?case
  proof (cases "i < max_decode")
    case False
    with "1.prems" show ?thesis by (simp add: multi_decode_loop_done)
  next
    case lt: True
    obtain ok s1 r where d: "decoder e s (res i) mn mx = (ok, s1, r)"
      by (cases "decoder e s (res i) mn mx") auto
    show ?thesis
    proof (cases ok)
      case True
      have step: "multi_decode_loop min_decode max_decode decoder e mn mx (i + 1) s1 (res(i := r))
              = (False, s', k, res')"
        using "1.prems" lt d True by (simp add: multi_decode_loop_ok)
      have "k < min_decode \<and> k < max_decode \<and> i + 1 \<le> k"
      proof (rule "1.IH" [OF lt refl refl refl _ _ refl _ step])
        show "(ok, s1, r) = decoder e s (res i) mn mx" using d by simp
        show "(s1, r) = (s1, r)" by simp
        show "\<not> \<not> ok" using True by simp
      qed
      then show ?thesis by simp
    next
      case False
      with "1.prems" lt d show ?thesis
        by (auto simp: multi_decode_loop_fail)
    qed
  qed
qed

lemma decode_n_step:
  "decoder e s (res i) mn mx = (True, s1, r) \<Longrightarrow>
     decode_n decoder e mn mx i (Suc k) s res = decode_n decoder e mn mx (Suc i) k s1 (res(i := r))"
  by simp

lemma multi_decode_loop_False_attempt:
  "multi_decode_loop min_decode max_decode decoder e mn mx i s res = (False, s', k, res') \<Longrightarrow>
     \<exists>sk resk. decode_n decoder e mn mx i (k - i) s res = Some (sk, resk)
                \<and> \<not> fst (decoder e sk (resk k) mn mx)"
proof (induction min_decode max_decode decoder e mn mx i s res rule: multi_decode_loop.induct)
  case (1 min_decode max_decode decoder e mn mx i s res)
  show ?case
  proof (cases "i < max_decode")
    case False
    with "1.prems" show ?thesis by (simp add: multi_decode_loop_done)
  next
    case lt: True
    obtain ok s1 r where d: "decoder e s (res i) mn mx = (ok, s1, r)"
      by (cases "decoder e s (res i) mn mx") auto
    show ?thesis
    proof (cases ok)
      case True
      have step: "multi_decode_loop min_decode max_decode decoder e mn mx (i + 1) s1 (res(i := r))
              = (False, s', k, res')"
        using "1.prems" lt d True by (simp add: multi_decode_loop_ok)
      have "\<exists>sk resk. decode_n decoder e mn mx (i + 1) (k - (i + 1)) s1 (res(i := r)) = Some (sk, resk)
                \<and> \<not> fst (decoder e sk (resk k) mn mx)"
      proof (rule "1.IH" [OF lt refl refl refl _ _ refl _ step])
        show "(ok, s1, r) = decoder e s (res i) mn mx" using d by simp
        show "(s1, r) = (s1, r)" by simp
        show "\<not> \<not> ok" using True by simp
      qed
      moreover have "i + 1 \<le> k" using multi_decode_loop_False [OF step] by simp
      then have "k - i = Suc (k - (i + 1))" by simp
      ultimately show ?thesis
        using d True by (simp add: decode_n_step del: decode_n.simps)
    next
      case False
      with "1.prems" lt d show ?thesis
        by (auto simp: multi_decode_loop_fail)
    qed
  qed
qed

lemma decode_n_next:
  "decoder e s (res i) mn mx = (True, s1, r) \<Longrightarrow> k = Suc k' \<Longrightarrow> i' = Suc i \<Longrightarrow>
     decode_n decoder e mn mx i k s res = decode_n decoder e mn mx i' k' s1 (res(i := r))"
  by simp

section \<open>The claims\<close>

subsection \<open>C1: reads stay inside the buffer\<close>

text \<open>
  C1 says that no decoder reads a byte at or past the end pointer, the header byte
  included.  Every decoder dereferences the read pointer before anything is checked
  (\<^verbatim>\<open>MAJOR_TYPE(**pp_payload)\<close> and \<^verbatim>\<open>ADDITIONAL(**pp_payload)\<close> come first; the test
  \<^verbatim>\<open>*pp_payload > p_payload_end\<close> in \<^verbatim>\<open>value_extract\<close> comes after the read).  So a
  call whose read pointer equals the end pointer, as on an empty buffer or after the
  last item of a buffer, reads the byte at the end pointer: \<^verbatim>\<open>value_extract\<close> reads
  exactly that address and then fails, and each typed decoder has that address among
  the addresses it reads.  With \<^verbatim>\<open>multi_decode\<close> this needs no special buffer: on the
  three-byte buffer \<^verbatim>\<open>0x01 0x02 0x03\<close> with minimum 2 and maximum 5 the fourth attempt
  of \<^verbatim>\<open>uintx32_decode\<close> reads address 3, the end pointer.  And on the one-byte buffer
  \<^verbatim>\<open>0x63\<close> a successful \<^verbatim>\<open>strx_decode\<close> leaves the read pointer at 4, so that a
  following \<^verbatim>\<open>intx32_decode\<close> reads address 4 where the end pointer is 1.  (When a call
  starts with the read pointer below the end pointer, all its reads are inside the
  buffer, extension bytes included: the lemmas \<open>*_reads_within\<close>, one for each decoder.)
\<close>

theorem header_read_at_buffer_end:
  "value_extract be mem e \<lparr>payload = e, elem_count = c, reads = []\<rparr> r n
     = (False, \<lparr>payload = e, elem_count = c, reads = [e]\<rparr>, r)
   \<and> e \<in> set (reads (fst (snd (intx32_decode be mem e \<lparr>payload = e, elem_count = c, reads = []\<rparr> p32 mn mx))))
   \<and> e \<in> set (reads (fst (snd (uintx32_decode be mem e \<lparr>payload = e, elem_count = c, reads = []\<rparr> p32 mn mx))))
   \<and> e \<in> set (reads (fst (snd (strx_start_decode be mem e \<lparr>payload = e, elem_count = c, reads = []\<rparr> pstr mn mx))))
   \<and> e \<in> set (reads (fst (snd (strx_decode be mem e \<lparr>payload = e, elem_count = c, reads = []\<rparr> pstr mn mx))))
   \<and> e \<in> set (reads (fst (snd (list_start_decode be mem e \<lparr>payload = e, elem_count = c, reads = []\<rparr> p32 lo hi))))
   \<and> e \<in> set (reads (fst (snd (primx_decode be mem e \<lparr>payload = e, elem_count = c, reads = []\<rparr> p8 mn mx))))
   \<and> e \<in> set (reads (fst (snd (boolx_decode be mem e \<lparr>payload = e, elem_count = c, reads = []\<rparr> pb bmn bmx pad1 pad2))))
   \<and> e \<in> set (reads (fst (snd (double_decode dle be mem e \<lparr>payload = e, elem_count = c, reads = []\<rparr> pd dmn dmx))))
   \<and> e \<in> set (reads (fst (snd (any_decode be mem e \<lparr>payload = e, elem_count = c, reads = []\<rparr> pa amn amx))))
   \<and> reads (fst (snd (multi_decode 2 5 (uintx32_decode be (mem_of [0x01, 0x02, 0x03])) 3
                         (start_state 10) (\<lambda>_. 0) None None)))
       = [0, 0, 1, 1, 2, 2, 3, 3]
   \<and> reads (fst (snd (intx32_decode be (mem_of [0x63]) 1
                         (fst (snd (strx_decode be (mem_of [0x63]) 1 (start_state 2)
                                      \<lparr>str_len = 0, str_value = 0\<rparr> None None)))
                         0 None None)))
       = [0, 0, 4, 4, 4]"
proof -
  let ?s = "\<lparr>payload = e, elem_count = c, reads = []\<rparr>"
  have ve: "value_extract be mem e ?s r n = (False, \<lparr>payload = e, elem_count = c, reads = [e]\<rparr>, r)"
    by (simp add: value_extract_at_end)
  have i32: "e \<in> set (reads (fst (snd (intx32_decode be mem e ?s p32 mn mx))))"
    by (simp add: value_extract_at_end intx32_decode_def int32_decode_def deref_payload_def Let_def)
  have u32: "e \<in> set (reads (fst (snd (uintx32_decode be mem e ?s p32 mn mx))))"
    by (simp add: value_extract_at_end uintx32_decode_def uint32_decode_def deref_payload_def Let_def)
  have sst: "e \<in> set (reads (fst (snd (strx_start_decode be mem e ?s pstr mn mx))))"
    by (simp add: value_extract_at_end strx_start_decode_def size_decode_def uint32_decode_def
          deref_payload_def Let_def)
  have str: "e \<in> set (reads (fst (snd (strx_decode be mem e ?s pstr mn mx))))"
    by (simp add: value_extract_at_end strx_decode_def strx_start_decode_def size_decode_def
          uint32_decode_def deref_payload_def Let_def)
  have lst: "e \<in> set (reads (fst (snd (list_start_decode be mem e ?s p32 lo hi))))"
    by (simp add: value_extract_at_end list_start_decode_def uint32_decode_def deref_payload_def
          Let_def)
  have prm: "e \<in> set (reads (fst (snd (primx_decode be mem e ?s p8 mn mx))))" for p8 mn mx
    by (simp add: value_extract_at_end primx_decode_def uint32_decode_def deref_payload_def Let_def)
  have boo: "e \<in> set (reads (fst (snd (boolx_decode be mem e ?s pb bmn bmx pad1 pad2))))"
    by (simp add: value_extract_at_end boolx_decode_def primx_decode_def uint32_decode_def
          deref_payload_def Let_def)
  have dbl: "e \<in> set (reads (fst (snd (double_decode dle be mem e ?s pd dmn dmx))))"
    by (simp add: value_extract_at_end double_decode_def deref_payload_def Let_def)
  have any: "e \<in> set (reads (fst (snd (any_decode be mem e ?s pa amn amx))))"
    by (simp add: value_extract_at_end any_decode_def deref_payload_def Let_def)
  have rep: "reads (fst (snd (multi_decode 2 5 (uintx32_decode be (mem_of [0x01, 0x02, 0x03])) 3
                         (start_state 10) (\<lambda>_. 0) None None)))
       = [0, 0, 1, 1, 2, 2, 3, 3]"
    by (induct be; code_simp)
  have nxt: "reads (fst (snd (intx32_decode be (mem_of [0x63]) 1
                         (fst (snd (strx_decode be (mem_of [0x63]) 1 (start_state 2)
                                      \<lparr>str_len = 0, str_value = 0\<rparr> None None)))
                         0 None None)))
       = [0, 0, 4, 4, 4]"
    by (induct be; code_simp)
  show ?thesis
    by (intro conjI) (fact ve i32 u32 sst str lst prm boo dbl any rep nxt)+
qed

subsection \<open>C2: state after a failing call\<close>

text \<open>
  C2 says that every failing call leaves read pointer and budget as they were, also
  when a range constraint is violated after a successful extraction.  The typed
  decoders return false after such a violation without restoring anything:
  \<^verbatim>\<open>uintx32_decode\<close> on the byte \<^verbatim>\<open>0x05\<close> with maximum 3, \<^verbatim>\<open>intx32_decode\<close> on
  \<^verbatim>\<open>0x1a 0x80 0x00 0x00 0x00\<close> (bit 31 of the magnitude set) and \<^verbatim>\<open>list_start_decode\<close>
  on \<^verbatim>\<open>0x8a\<close> with bounds 1 and 5 all fail with the read pointer moved past the item
  and the budget decremented from 1 to 0.  (\<open>value_extract_False_unchanged\<close> shows that a
  failing \<^verbatim>\<open>value_extract\<close> does restore both, and the lemmas \<open>*_either\<close> show that
  a typed decoder leaves either the state of before the call or the state after one
  extraction.)
\<close>

theorem failure_after_extraction_keeps_advance:
  "uintx32_decode be (mem_of [0x05]) 1 (start_state 1) 0 None (Some 3)
     = (False, \<lparr>payload = 1, elem_count = 0, reads = [0, 0]\<rparr>, 5)
   \<and> fst (snd (intx32_decode be (mem_of [0x1a, 0x80, 0, 0, 0]) 5 (start_state 1) 0 None None))
     = \<lparr>payload = 5, elem_count = 0,
        reads = [0, 0, 0] @ (if be then [1, 2, 3, 4] else [4, 3, 2, 1])\<rparr>
   \<and> \<not> fst (intx32_decode be (mem_of [0x1a, 0x80, 0, 0, 0]) 5 (start_state 1) 0 None None)
   \<and> list_start_decode be (mem_of [0x8a]) 1 (start_state 1) 0 1 5
     = (False, \<lparr>payload = 1, elem_count = 0, reads = [0, 0]\<rparr>, 10)
   \<and> start_state 1 = \<lparr>payload = 0, elem_count = 1, reads = []\<rparr>"
  by (induct be; code_simp)

subsection \<open>C3: the negative-integer examples\<close>

text \<open>
  C3 says that the header byte \<^verbatim>\<open>0x20\<close> decodes to \<open>-1\<close> and the bytes
  \<^verbatim>\<open>0x38 0x63\<close> decode to \<open>-100\<close>.  The code computes \<^verbatim>\<open>1 - *p_result\<close> where CBOR
  asks for \<open>-1 - n\<close>: with no range constraint and budget 1, \<^verbatim>\<open>intx32_decode\<close>
  succeeds on both inputs, on either byte order, and stores \<open>1\<close> for \<^verbatim>\<open>0x20\<close> and
  \<open>-98\<close> for \<^verbatim>\<open>0x38 0x63\<close>.
\<close>

theorem intx32_decode_negative_examples:
  "intx32_decode be (mem_of [0x20]) 1 (start_state 1) 0 None None
     = (True, \<lparr>payload = 1, elem_count = 0, reads = [0, 0, 0]\<rparr>, 1)
   \<and> intx32_decode be (mem_of [0x38, 0x63]) 2 (start_state 1) 0 None None
     = (True, \<lparr>payload = 2, elem_count = 0, reads = [0, 0, 0, 1]\<rparr>, - 98)
   \<and> sint (1 :: 32 word) = 1 \<and> sint (- 98 :: 32 word) = - 98"
  by (induct be; code_simp)

subsection \<open>C4: the order of the steps of \<^verbatim>\<open>int32_decode\<close>\<close>

text \<open>
  C4: \<^verbatim>\<open>int32_decode\<close> first extracts a four-byte raw magnitude with
  \<^verbatim>\<open>value_extract\<close> and leaves the state as the extraction left it; it fails whenever
  bit 31 of the raw magnitude is set; otherwise the final value is \<open>1 - raw\<close> exactly
  when the major type of the header is negative integer, and \<open>raw\<close> for any other major
  type; the call succeeds exactly when the extraction succeeded, bit 31 is clear and the
  final value, read as a signed integer, satisfies each bound that is present.
  \<^verbatim>\<open>intx32_decode\<close> hands over to \<^verbatim>\<open>int32_decode\<close> exactly for the major types positive
  and negative integer.
\<close>

theorem int32_decode_order:
  assumes ve: "value_extract be mem e (s\<lparr>reads := reads s @ [payload s]\<rparr>) (store_word be 4 p) 4
                 = (ok1, s1, bytes)"
      and dec: "int32_decode be mem e s p pmin pmax = (ok, s', res)"
  shows "let raw = (load_word be bytes :: 32 word);
             nint = (MAJOR_TYPE (mem (payload s)) = CBOR_MAJOR_TYPE_NINT);
             v = (if nint then 1 - uint raw else uint raw)
         in s' = s1
          \<and> (bit raw 31 \<longrightarrow> \<not> ok)
          \<and> (ok \<longleftrightarrow> ok1 \<and> \<not> bit raw 31
                    \<and> (case pmin of None \<Rightarrow> True | Some m \<Rightarrow> sint m \<le> v)
                    \<and> (case pmax of None \<Rightarrow> True | Some m \<Rightarrow> v \<le> sint m))
          \<and> (ok \<longrightarrow> res = (if nint then 1 - raw else raw) \<and> sint res = v)
          \<and> intx32_decode be mem e s p pmin pmax =
               (if MAJOR_TYPE (mem (payload s)) = CBOR_MAJOR_TYPE_PINT
                   \<or> MAJOR_TYPE (mem (payload s)) = CBOR_MAJOR_TYPE_NINT
                then int32_decode be mem e (s\<lparr>reads := reads s @ [payload s]\<rparr>) p pmin pmax
                else (False, s\<lparr>reads := reads s @ [payload s]\<rparr>, p))"
proof -
  define raw :: "32 word" where "raw = load_word be bytes"
  define nint where "nint = (MAJOR_TYPE (mem (payload s)) = CBOR_MAJOR_TYPE_NINT)"
  define v where "v = (if nint then 1 - uint raw else uint raw)"
  define fin where "fin = (if nint then 1 - raw else raw)"
  have unf: "(ok, s', res) =
      (if \<not> ok1 then (False, s1, raw)
       else if sint raw < 0 then (False, s1, raw)
       else if \<not> value_in_range_int32 fin pmin pmax then (False, s1, fin)
       else (True, s1, fin))"
    using dec ve
    by (auto simp: int32_decode_def deref_payload_def Let_def raw_def nint_def fin_def
          split: if_splits)
  have sfin: "\<not> bit raw 31 \<Longrightarrow> sint fin = v"
    by (simp add: fin_def v_def sint_one_minus sint_eq_uint_32)
  have rng: "\<not> bit raw 31 \<Longrightarrow> value_in_range_int32 fin pmin pmax \<longleftrightarrow>
               (case pmin of None \<Rightarrow> True | Some m \<Rightarrow> sint m \<le> v)
               \<and> (case pmax of None \<Rightarrow> True | Some m \<Rightarrow> v \<le> sint m)"
    using sfin by (simp add: value_in_range_int32_def split: option.splits)
  have "s' = s1
          \<and> (bit raw 31 \<longrightarrow> \<not> ok)
          \<and> (ok \<longleftrightarrow> ok1 \<and> \<not> bit raw 31
                    \<and> (case pmin of None \<Rightarrow> True | Some m \<Rightarrow> sint m \<le> v)
                    \<and> (case pmax of None \<Rightarrow> True | Some m \<Rightarrow> v \<le> sint m))
          \<and> (ok \<longrightarrow> res = fin \<and> sint res = v)"
    using unf rng sfin by (auto simp: sint_neg_iff_bit31 split: if_splits)
  then show ?thesis
    unfolding Let_def intx32_decode_unfold raw_def nint_def v_def fin_def
    by (simp add: sint_one_minus sint_eq_uint_32)
qed

theorem int32_decode_order_witness:
  "value_extract False (mem_of [0x38, 0x63]) 2 (start_state 1\<lparr>reads := [0]\<rparr>)
       (store_word False 4 (0 :: 32 word)) 4
     = (True, \<lparr>payload = 2, elem_count = 0, reads = [0, 0, 1]\<rparr>, [0x63, 0, 0, 0])
   \<and> int32_decode False (mem_of [0x38, 0x63]) 2 (start_state 1) 0 (Some (- 100)) (Some 0)
     = (True, \<lparr>payload = 2, elem_count = 0, reads = [0, 0, 1]\<rparr>, - 98)
   \<and> \<not> bit (load_word False [0x63, 0, 0, 0] :: 32 word) 31
   \<and> sint (- 98 :: 32 word) = 1 - uint (load_word False [0x63, 0, 0, 0] :: 32 word)
   \<and> value_extract False (mem_of [0x1a, 0x80, 0, 0, 0]) 5 (start_state 1\<lparr>reads := [0]\<rparr>)
       (store_word False 4 (0 :: 32 word)) 4
     = (True, \<lparr>payload = 5, elem_count = 0, reads = [0, 0, 4, 3, 2, 1]\<rparr>, [0, 0, 0, 0x80])
   \<and> bit (load_word False [0, 0, 0, 0x80] :: 32 word) 31
   \<and> int32_decode False (mem_of [0x1a, 0x80, 0, 0, 0]) 5 (start_state 1) 0 None None
     = (False, \<lparr>payload = 5, elem_count = 0, reads = [0, 0, 4, 3, 2, 1]\<rparr>, 0x80000000)"
proof -
  have a: "value_extract False (mem_of [0x38, 0x63]) 2
             ((start_state 1)\<lparr>reads := reads (start_state 1) @ [payload (start_state 1)]\<rparr>)
             (store_word False 4 (0 :: 32 word)) 4
           = (True, \<lparr>payload = 2, elem_count = 0, reads = [0, 0, 1]\<rparr>, [0x63, 0, 0, 0])"
    by code_simp
  have b: "int32_decode False (mem_of [0x38, 0x63]) 2 (start_state 1) 0 (Some (- 100)) (Some 0)
           = (True, \<lparr>payload = 2, elem_count = 0, reads = [0, 0, 1]\<rparr>, - 98)"
    by code_simp
  have c: "MAJOR_TYPE (mem_of [0x38, 0x63] (payload (start_state 1))) = CBOR_MAJOR_TYPE_NINT"
    by code_simp
  have d: "(start_state 1)\<lparr>reads := reads (start_state 1) @ [payload (start_state 1)]\<rparr>
             = start_state 1\<lparr>reads := [0]\<rparr>"
    by (simp add: start_state_def)
  have a': "value_extract False (mem_of [0x1a, 0x80, 0, 0, 0]) 5
             ((start_state 1)\<lparr>reads := reads (start_state 1) @ [payload (start_state 1)]\<rparr>)
             (store_word False 4 (0 :: 32 word)) 4
           = (True, \<lparr>payload = 5, elem_count = 0, reads = [0, 0, 4, 3, 2, 1]\<rparr>, [0, 0, 0, 0x80])"
    by code_simp
  have b': "int32_decode False (mem_of [0x1a, 0x80, 0, 0, 0]) 5 (start_state 1) 0 None None
           = (False, \<lparr>payload = 5, elem_count = 0, reads = [0, 0, 4, 3, 2, 1]\<rparr>, 0x80000000)"
    by code_simp
  have e: "bit (load_word False [0, 0, 0, 0x80] :: 32 word) 31"
    "\<not> bit (load_word False [0x63, 0, 0, 0] :: 32 word) 31"
    by code_simp+
  have f: "sint (- 98 :: 32 word) = 1 - uint (load_word False [0x63, 0, 0, 0] :: 32 word)"
    by code_simp
  from int32_decode_order [OF a b] int32_decode_order [OF a' b'] a b a' b' d e f
  show ?thesis by (simp only: simp_thms)
qed

subsection \<open>C5: the read pointer after a successful call\<close>

text \<open>
  C5 says that after every successful call the read pointer does not exceed the end
  pointer, and that \<^verbatim>\<open>strx_decode\<close> in particular has checked that the payload lies
  within the buffer before it moves the read pointer past it.  \<^verbatim>\<open>value_extract\<close>
  compares \<^verbatim>\<open>*pp_payload + len\<close> with the end pointer before it adds \<open>len\<close>;
  \<^verbatim>\<open>strx_decode\<close> and \<^verbatim>\<open>any_decode\<close> add the decoded length without that comparison.
  On the one-byte buffer \<^verbatim>\<open>0x63\<close> (a text string of length 3 with no payload)
  \<^verbatim>\<open>strx_decode\<close> succeeds and leaves the read pointer at 4, and on the one-byte buffer
  \<^verbatim>\<open>0x41\<close> \<^verbatim>\<open>any_decode\<close> succeeds and leaves it at 2; the end pointer is 1.  (For
  \<^verbatim>\<open>value_extract\<close> and the decoders that only wrap it the bound holds:
  \<open>cursor_after_success\<close>.)
\<close>

theorem payload_skipped_past_buffer_end:
  "fst (strx_decode False (mem_of [0x63]) 1 (start_state 1) \<lparr>str_len = 0, str_value = 0\<rparr> None None)
   \<and> \<not> payload (fst (snd (strx_decode False (mem_of [0x63]) 1 (start_state 1)
                              \<lparr>str_len = 0, str_value = 0\<rparr> None None))) \<le> 1
   \<and> payload (fst (snd (strx_decode False (mem_of [0x63]) 1 (start_state 1)
                            \<lparr>str_len = 0, str_value = 0\<rparr> None None))) = 4
   \<and> fst (any_decode False (mem_of [0x41]) 1 (start_state 1) () () ())
   \<and> \<not> payload (fst (snd (any_decode False (mem_of [0x41]) 1 (start_state 1) () () ()))) \<le> 1
   \<and> payload (fst (snd (any_decode False (mem_of [0x41]) 1 (start_state 1) () () ()))) = 2"
  by code_simp

subsection \<open>C6: budget and rewinding in \<^verbatim>\<open>value_extract\<close>\<close>

text \<open>
  C6: a successful \<^verbatim>\<open>value_extract\<close> decrements the budget by exactly one (and the
  budget was not zero); a call with budget zero fails with read pointer and budget as
  they were; every failing call leaves the read pointer where it was before the call
  (the increment past the header byte is undone) and leaves the budget untouched.  The
  call fails exactly when the budget is zero, or the header byte is not below the end
  pointer, or the header announces an extension that is wider than the destination or
  that reaches past the end pointer.
\<close>

theorem value_extract_budget_and_rewind:
  assumes "value_extract be mem e s r n = (ok, s', r')"
  shows "(ok \<longrightarrow> elem_count s \<noteq> 0 \<and> unat (elem_count s') + 1 = unat (elem_count s))
       \<and> (elem_count s = 0 \<longrightarrow> \<not> ok \<and> payload s' = payload s \<and> elem_count s' = 0)
       \<and> (\<not> ok \<longrightarrow> payload s' = payload s \<and> elem_count s' = elem_count s)
       \<and> (\<not> ok \<longleftrightarrow>
             elem_count s = 0 \<or> e \<le> payload s
             \<or> (23 < ADDITIONAL (mem (payload s))
                 \<and> (n < unat (additional_len (ADDITIONAL (mem (payload s))))
                    \<or> e < payload s + 1 + unat (additional_len (ADDITIONAL (mem (payload s)))))))"
proof -
  have ok: "ok = fst (value_extract be mem e s r n)"
    and s': "s' = fst (snd (value_extract be mem e s r n))"
    using assms by simp_all
  have 1: "ok \<longrightarrow> elem_count s \<noteq> 0 \<and> unat (elem_count s') + 1 = unat (elem_count s)"
  proof
    assume ok
    then have f: "fst (value_extract be mem e s r n)" by (simp add: ok)
    then have nz: "elem_count s \<noteq> 0" by (simp add: value_extract_ok_iff)
    then have "unat (elem_count s) \<noteq> 0" by (simp add: unat_eq_zero)
    moreover have "elem_count s' = elem_count s - 1"
      unfolding s' by (rule value_extract_ok_count [OF f])
    ultimately show "elem_count s \<noteq> 0 \<and> unat (elem_count s') + 1 = unat (elem_count s)"
      using nz by (simp add: unat_minus_one)
  qed
  have 3: "\<not> ok \<longrightarrow> payload s' = payload s \<and> elem_count s' = elem_count s"
    unfolding ok s' by (simp add: value_extract_fail_state)
  have 4: "\<not> ok \<longleftrightarrow>
             elem_count s = 0 \<or> e \<le> payload s
             \<or> (23 < ADDITIONAL (mem (payload s))
                 \<and> (n < unat (additional_len (ADDITIONAL (mem (payload s))))
                    \<or> e < payload s + 1 + unat (additional_len (ADDITIONAL (mem (payload s))))))"
    unfolding ok value_extract_ok_iff by auto
  have 2: "elem_count s = 0 \<longrightarrow> \<not> ok \<and> payload s' = payload s \<and> elem_count s' = 0"
    using 3 4 by auto
  show ?thesis using 1 2 3 4 by blast
qed

theorem value_extract_budget_and_rewind_witness:
  "value_extract False (mem_of [0x18, 0x2a]) 2 (start_state 1) [0, 0, 0, 0] 4
      = (True, \<lparr>payload = 2, elem_count = 0, reads = [0, 1]\<rparr>, [0x2a, 0, 0, 0])
   \<and> elem_count (start_state 1) \<noteq> 0
   \<and> unat (0 :: 32 word) + 1 = unat (elem_count (start_state 1))
   \<and> value_extract False (mem_of [0x18, 0x2a]) 2 (start_state 0) [7, 7, 7, 7] 4
      = (False, \<lparr>payload = 0, elem_count = 0, reads = [0]\<rparr>, [7, 7, 7, 7])
   \<and> payload (start_state 0) = 0 \<and> elem_count (start_state 0) = 0"
proof -
  have a: "value_extract False (mem_of [0x18, 0x2a]) 2 (start_state 1) [0, 0, 0, 0] 4
             = (True, \<lparr>payload = 2, elem_count = 0, reads = [0, 1]\<rparr>, [0x2a, 0, 0, 0])"
    by code_simp
  have b: "value_extract False (mem_of [0x18, 0x2a]) 2 (start_state 0) [7, 7, 7, 7] 4
             = (False, \<lparr>payload = 0, elem_count = 0, reads = [0]\<rparr>, [7, 7, 7, 7])"
    by code_simp
  show ?thesis
    using value_extract_budget_and_rewind [OF a] value_extract_budget_and_rewind [OF b] a b
    by simp
qed

subsection \<open>C7: what \<^verbatim>\<open>value_extract\<close> stores\<close>

text \<open>
  C7: let \<open>a\<close> be the low five bits of the header byte and let the call succeed on a
  destination of \<open>n > 0\<close> bytes.  If \<open>a\<close> is at most 23, one byte is consumed and the
  destination holds \<open>a\<close> in its lowest-order byte and zeros elsewhere.  If \<open>a\<close> is 24, 25,
  26 or 27, then 1, 2, 4 or 8 bytes follow the header; they are consumed, and the
  destination holds them in host order in its low-order end, zeros above: read in host
  order the destination has the big-endian value of the extension.  If \<open>a\<close> is 28 or
  more, no extension byte is consumed and the destination holds \<open>a\<close> itself, as in the
  first case.  Bytes of the destination storage behind the first \<open>n\<close> are kept.
\<close>

theorem value_extract_result_layout:
  assumes ok: "value_extract be mem e s r n = (True, s', r')" and n: "0 < n"
  shows "let a = ADDITIONAL (mem (payload s));
             len = unat (additional_len a);
             ext = map (\<lambda>i. mem (payload s + 1 + i)) [0..<len];
             header_only = (if be then replicate (n - 1) 0 @ [a] else a # replicate (n - 1) 0);
             extended = (if be then replicate (n - len) 0 @ ext else rev ext @ replicate (n - len) 0)
         in (a \<le> 23 \<longrightarrow> payload s' = payload s + 1 \<and> r' = header_only @ drop n r)
          \<and> (a = 24 \<longrightarrow> len = 1) \<and> (a = 25 \<longrightarrow> len = 2)
          \<and> (a = 26 \<longrightarrow> len = 4) \<and> (a = 27 \<longrightarrow> len = 8)
          \<and> (24 \<le> a \<and> a \<le> 27 \<longrightarrow>
                len \<le> n \<and> payload s' = payload s + 1 + len \<and> r' = extended @ drop n r
                \<and> be_value (if be then extended else rev extended) = be_value ext)
          \<and> (28 \<le> a \<longrightarrow> len = 0 \<and> payload s' = payload s + 1 \<and> r' = header_only @ drop n r)
          \<and> be_value (if be then header_only else rev header_only) = unat a"
proof -
  define a where "a = ADDITIONAL (mem (payload s))"
  define len where "len = unat (additional_len a)"
  define ext where "ext = map (\<lambda>i. mem (payload s + 1 + i)) [0..<len]"
  define header_only where
    "header_only = (if be then replicate (n - 1) 0 @ [a] else a # replicate (n - 1) 0)"
  define extended where
    "extended = (if be then replicate (n - len) 0 @ ext else rev ext @ replicate (n - len) 0)"
  have f: "fst (value_extract be mem e s r n)" using ok by simp
  have s': "s' = fst (snd (value_extract be mem e s r n))" using ok by simp
  have pay: "payload s' = payload s + 1 + (if a > 23 then len else 0)"
    unfolding s' a_def len_def by (rule value_extract_ok_payload [OF f])
  have res: "r' = (if a \<le> 23 \<or> len = 0 then header_only else extended) @ drop n r"
    using value_extract_result [OF ok n]
    by (simp add: Let_def a_def len_def ext_def header_only_def extended_def)
  have lens: "(a = 24 \<longrightarrow> len = 1) \<and> (a = 25 \<longrightarrow> len = 2) \<and> (a = 26 \<longrightarrow> len = 4)
                \<and> (a = 27 \<longrightarrow> len = 8)"
    by (simp add: len_def additional_len_def)
  have len28: "28 \<le> a \<longrightarrow> len = 0"
    by (auto simp: len_def additional_len_def)
  have len_pos: "24 \<le> a \<and> a \<le> 27 \<longrightarrow> 0 < len \<and> 23 < a"
  proof
    assume "24 \<le> a \<and> a \<le> 27"
    then have "24 \<le> unat a" "unat a \<le> 27" by (simp_all add: word_le_nat_alt)
    then have "unat a = 24 \<or> unat a = 25 \<or> unat a = 26 \<or> unat a = 27" by arith
    then have "a = 24 \<or> a = 25 \<or> a = 26 \<or> a = 27"
      by (simp add: word_unat_eq_iff)
    then show "0 < len \<and> 23 < a" using lens by auto
  qed
  have len_n: "23 < a \<longrightarrow> len \<le> n"
    using value_extract_ok_len [OF f] by (simp add: a_def len_def)
  have v1: "be_value (if be then extended else rev extended) = be_value ext"
    by (simp add: extended_def)
  have v2: "be_value (if be then header_only else rev header_only) = unat a"
    by (simp add: header_only_def)
  have lt: "a \<le> 23 \<longrightarrow> \<not> 23 < a" by auto
  have gt: "28 \<le> a \<longrightarrow> 23 < a" by (auto simp: word_le_nat_alt word_less_nat_alt)
  show ?thesis
    unfolding Let_def
    apply (fold a_def)
    apply (fold len_def)
    apply (fold ext_def)
    apply (fold header_only_def extended_def)
    using pay res lens len28 len_pos len_n v1 v2 lt gt by auto
qed

theorem value_extract_result_layout_witness:
  "value_extract False (mem_of [0x19, 0x01, 0x02]) 3 (start_state 1) [9, 9, 9, 9] 4
     = (True, \<lparr>payload = 3, elem_count = 0, reads = [0, 2, 1]\<rparr>, [0x02, 0x01, 0, 0])
   \<and> (0 :: nat) < 4
   \<and> ADDITIONAL (mem_of [0x19, 0x01, 0x02] 0) = 25
   \<and> unat (additional_len 25) = 2
   \<and> be_value (rev [0x02, 0x01, 0, 0]) = be_value [0x01, 0x02]
   \<and> value_extract True (mem_of [0x05]) 1 (start_state 1) [9, 9, 9, 9] 4
     = (True, \<lparr>payload = 1, elem_count = 0, reads = [0]\<rparr>, [0, 0, 0, 0x05])
   \<and> ADDITIONAL (mem_of [0x05] 0) \<le> 23
   \<and> value_extract False (mem_of [0x1c]) 1 (start_state 1) [9, 9, 9, 9] 4
     = (True, \<lparr>payload = 1, elem_count = 0, reads = [0]\<rparr>, [0x1c, 0, 0, 0])
   \<and> 28 \<le> ADDITIONAL (mem_of [0x1c] 0)"
proof -
  have a: "value_extract False (mem_of [0x19, 0x01, 0x02]) 3 (start_state 1) [9, 9, 9, 9] 4
             = (True, \<lparr>payload = 3, elem_count = 0, reads = [0, 2, 1]\<rparr>, [0x02, 0x01, 0, 0])"
    by code_simp
  have a': "value_extract True (mem_of [0x05]) 1 (start_state 1) [9, 9, 9, 9] 4
             = (True, \<lparr>payload = 1, elem_count = 0, reads = [0]\<rparr>, [0, 0, 0, 0x05])"
    by code_simp
  have a'': "value_extract False (mem_of [0x1c]) 1 (start_state 1) [9, 9, 9, 9] 4
             = (True, \<lparr>payload = 1, elem_count = 0, reads = [0]\<rparr>, [0x1c, 0, 0, 0])"
    by code_simp
  have b: "(0 :: nat) < 4" by simp
  have c: "ADDITIONAL (mem_of [0x19, 0x01, 0x02] (payload (start_state 1))) = 25"
    "ADDITIONAL (mem_of [0x05] (payload (start_state 1))) = 5"
    "ADDITIONAL (mem_of [0x1c] (payload (start_state 1))) = 28"
    by code_simp+
  have d: "payload (start_state 1) = 0" by (simp add: start_state_def)
  have e: "be_value (rev [0x02, 0x01, 0, 0]) = be_value [0x01, 0x02]" by code_simp
  show ?thesis
    using value_extract_result_layout [OF a b] value_extract_result_layout [OF a' b]
      value_extract_result_layout [OF a'' b] a a' a'' b c d e
    by (simp add: Let_def additional_len_def)
qed

subsection \<open>C8: \<^verbatim>\<open>multi_decode\<close> is greedy and rolls the failing attempt back\<close>

text \<open>
  C8: when the callback succeeds \<open>k\<close> times in a row from the start, with \<open>k\<close> below
  \<open>max_decode\<close>, and fails on its next attempt, \<^verbatim>\<open>multi_decode\<close> stores the count
  \<open>k\<close>, restores read pointer and budget to their values before the failing attempt
  (the state reached by the \<open>k\<close> successes), and returns true exactly when
  \<open>min_decode\<close> is at most \<open>k\<close>.  On a buffer with the three unsigned integers 1, 100
  and 256 followed by the byte \<^verbatim>\<open>0xff\<close>, decoding with \<^verbatim>\<open>uintx32_decode\<close>, minimum 2
  and maximum 5 succeeds with count 3; with minimum 4 the call fails, with the same
  count, read pointer and budget.
\<close>

theorem multi_decode_greedy:
  "(\<forall>k sk resk sf rf.
       decode_n decoder e mn mx 0 k s res = Some (sk, resk) \<and> k < max_decode
       \<and> decoder e sk (resk k) mn mx = (False, sf, rf)
       \<longrightarrow> multi_decode min_decode max_decode decoder e s res mn mx =
             (min_decode \<le> k, sf\<lparr>payload := payload sk, elem_count := elem_count sk\<rparr>, k,
              resk(k := rf)))
   \<and> (case multi_decode 2 5 (uintx32_decode be (mem_of [0x01, 0x18, 0x64, 0x19, 0x01, 0x00, 0xff]))
              7 (start_state 10) (\<lambda>_. 0) None None of
         (ok, s', n, res') \<Rightarrow>
           ok \<and> n = 3 \<and> payload s' = 6 \<and> elem_count s' = 7 \<and> map res' [0..<3] = [1, 100, 256])
   \<and> (case multi_decode 4 5 (uintx32_decode be (mem_of [0x01, 0x18, 0x64, 0x19, 0x01, 0x00, 0xff]))
              7 (start_state 10) (\<lambda>_. 0) None None of
         (ok, s', n, res') \<Rightarrow>
           \<not> ok \<and> n = 3 \<and> payload s' = 6 \<and> elem_count s' = 7)"
proof -
  have gen: "multi_decode min_decode max_decode decoder e s res mn mx =
             (min_decode \<le> k, sf\<lparr>payload := payload sk, elem_count := elem_count sk\<rparr>, k,
              resk(k := rf))"
    if n: "decode_n decoder e mn mx 0 k s res = Some (sk, resk)" and k: "k < max_decode"
      and f: "decoder e sk (resk k) mn mx = (False, sf, rf)" for k sk resk sf rf
  proof -
    have "multi_decode_loop min_decode max_decode decoder e mn mx 0 s res =
            multi_decode_loop min_decode max_decode decoder e mn mx (0 + k) sk resk"
      using k by (intro multi_decode_loop_steps [OF n]) simp
    then show ?thesis
      using multi_decode_loop_fail [of k max_decode decoder e sk resk mn mx sf rf min_decode] k f
      by (simp add: multi_decode_def)
  qed
  have c1: "(case multi_decode 2 5 (uintx32_decode be (mem_of [0x01, 0x18, 0x64, 0x19, 0x01, 0x00, 0xff]))
              7 (start_state 10) (\<lambda>_. 0) None None of
         (ok, s', n, res') \<Rightarrow>
           ok \<and> n = 3 \<and> payload s' = 6 \<and> elem_count s' = 7 \<and> map res' [0..<3] = [1, 100, 256])"
    by (induct be; code_simp)
  have c2: "(case multi_decode 4 5 (uintx32_decode be (mem_of [0x01, 0x18, 0x64, 0x19, 0x01, 0x00, 0xff]))
              7 (start_state 10) (\<lambda>_. 0) None None of
         (ok, s', n, res') \<Rightarrow>
           \<not> ok \<and> n = 3 \<and> payload s' = 6 \<and> elem_count s' = 7)"
    by (induct be; code_simp)
  show ?thesis using gen c1 c2 by blast
qed

theorem multi_decode_greedy_witness:
  "decode_n (uintx32_decode False (mem_of [0x01, 0x18, 0x64, 0x19, 0x01, 0x00, 0xff])) 7 None None
       0 3 (start_state 10) (\<lambda>_. 0)
     = Some (\<lparr>payload = 6, elem_count = 7, reads = [0, 0, 1, 1, 2, 3, 3, 5, 4]\<rparr>,
             (\<lambda>_. 0)(0 := 1, 1 := 100, 2 := 256))
   \<and> (3 :: nat) < 5
   \<and> uintx32_decode False (mem_of [0x01, 0x18, 0x64, 0x19, 0x01, 0x00, 0xff]) 7
        \<lparr>payload = 6, elem_count = 7, reads = [0, 0, 1, 1, 2, 3, 3, 5, 4]\<rparr> 0 None None
     = (False, \<lparr>payload = 6, elem_count = 7, reads = [0, 0, 1, 1, 2, 3, 3, 5, 4, 6]\<rparr>, 0)
   \<and> multi_decode 2 5 (uintx32_decode False (mem_of [0x01, 0x18, 0x64, 0x19, 0x01, 0x00, 0xff]))
        7 (start_state 10) (\<lambda>_. 0) None None
     = (True, \<lparr>payload = 6, elem_count = 7, reads = [0, 0, 1, 1, 2, 3, 3, 5, 4, 6]\<rparr>, 3,
        (\<lambda>_. 0)(0 := 1, 1 := 100, 2 := 256, 3 := 0))"
proof -
  let ?d = "uintx32_decode False (mem_of [0x01, 0x18, 0x64, 0x19, 0x01, 0x00, 0xff])"
  let ?s3 = "\<lparr>payload = 6, elem_count = 7, reads = [0, 0, 1, 1, 2, 3, 3, 5, 4]\<rparr>"
  have d1: "?d 7 (start_state 10) 0 None None
              = (True, \<lparr>payload = 1, elem_count = 9, reads = [0, 0]\<rparr>, 1)"
    by code_simp
  have d2: "?d 7 \<lparr>payload = 1, elem_count = 9, reads = [0, 0]\<rparr> 0 None None
              = (True, \<lparr>payload = 3, elem_count = 8, reads = [0, 0, 1, 1, 2]\<rparr>, 100)"
    by code_simp
  have d3: "?d 7 \<lparr>payload = 3, elem_count = 8, reads = [0, 0, 1, 1, 2]\<rparr> 0 None None
              = (True, ?s3, 256)"
    by code_simp
  have d4: "?d 7 ?s3 0 None None
              = (False, \<lparr>payload = 6, elem_count = 7, reads = [0, 0, 1, 1, 2, 3, 3, 5, 4, 6]\<rparr>, 0)"
    by code_simp
  have "decode_n ?d 7 None None 0 3 (start_state 10) (\<lambda>_. 0)
          = decode_n ?d 7 None None 1 2 \<lparr>payload = 1, elem_count = 9, reads = [0, 0]\<rparr>
              ((\<lambda>_. 0)(0 := 1))"
    by (rule decode_n_next [of ?d 7 "start_state 10" "\<lambda>_. 0" 0 None None _ 1 3 2 1])
       (use d1 in simp_all)
  also have "\<dots> = decode_n ?d 7 None None 2 1
                      \<lparr>payload = 3, elem_count = 8, reads = [0, 0, 1, 1, 2]\<rparr>
                      ((\<lambda>_. 0)(0 := 1, 1 := 100))"
    by (rule decode_n_next [of ?d 7 _ "(\<lambda>_. 0)(0 := 1)" 1 None None _ 100 2 1 2])
       (use d2 in simp_all)
  also have "\<dots> = decode_n ?d 7 None None 3 0 ?s3 ((\<lambda>_. 0)(0 := 1, 1 := 100, 2 := 256))"
    by (rule decode_n_next [of ?d 7 _ "(\<lambda>_. 0)(0 := 1, 1 := 100)" 2 None None _ 256 1 0 3])
       (use d3 in simp_all)
  finally have n: "decode_n ?d 7 None None 0 3 (start_state 10) (\<lambda>_. 0)
             = Some (?s3, (\<lambda>_. 0)(0 := 1, 1 := 100, 2 := 256))"
    by simp
  have k: "(3 :: nat) < 5" by simp
  have f: "?d 7 ?s3 (((\<lambda>_. 0)(0 := 1, 1 := 100, 2 := 256)) (3::nat)) None None
             = (False, \<lparr>payload = 6, elem_count = 7, reads = [0, 0, 1, 1, 2, 3, 3, 5, 4, 6]\<rparr>, 0)"
    using d4 by simp
  show ?thesis
    using multi_decode_greedy [THEN conjunct1, rule_format, OF conjI [OF n conjI [OF k f]],
            of 2] n k d4
    by simp
qed

subsection \<open>C9: the minimum is enforced only after a failing attempt\<close>

text \<open>
  C9: when all \<open>max_decode\<close> attempts succeed, \<^verbatim>\<open>multi_decode\<close> returns true with the
  count \<open>max_decode\<close>, whatever \<open>min_decode\<close> is; with \<open>max_decode = 0\<close> it returns
  true with count 0 and the state untouched.  It returns false only when a callback
  attempt failed after fewer than \<open>min_decode\<close> and fewer than \<open>max_decode\<close> successes.
  So a call with \<open>min_decode > max_decode\<close> can succeed with fewer than \<open>min_decode\<close>
  repetitions.
\<close>

theorem multi_decode_minimum_only_on_failure:
  "(decode_n decoder e mn mx 0 max_decode s res = Some (sm, resm)
      \<longrightarrow> multi_decode min_decode max_decode decoder e s res mn mx = (True, sm, max_decode, resm))
   \<and> multi_decode min_decode 0 decoder e s res mn mx = (True, s, 0, res)
   \<and> (multi_decode min_decode max_decode decoder e s res mn mx = (False, s', k, res')
      \<longrightarrow> k < min_decode \<and> k < max_decode
          \<and> (\<exists>sk resk. decode_n decoder e mn mx 0 k s res = Some (sk, resk)
                         \<and> \<not> fst (decoder e sk (resk k) mn mx)))"
proof -
  have all: "multi_decode min_decode max_decode decoder e s res mn mx = (True, sm, max_decode, resm)"
    if n: "decode_n decoder e mn mx 0 max_decode s res = Some (sm, resm)"
  proof -
    have "multi_decode_loop min_decode max_decode decoder e mn mx 0 s res =
            multi_decode_loop min_decode max_decode decoder e mn mx (0 + max_decode) sm resm"
      by (intro multi_decode_loop_steps [OF n]) simp
    then show ?thesis by (simp add: multi_decode_def multi_decode_loop_done)
  qed
  have zero: "multi_decode min_decode 0 decoder e s res mn mx = (True, s, 0, res)"
    by (simp add: multi_decode_def multi_decode_loop_done)
  have fail: "k < min_decode \<and> k < max_decode
          \<and> (\<exists>sk resk. decode_n decoder e mn mx 0 k s res = Some (sk, resk)
                         \<and> \<not> fst (decoder e sk (resk k) mn mx))"
    if f: "multi_decode min_decode max_decode decoder e s res mn mx = (False, s', k, res')"
    using multi_decode_loop_False [of min_decode max_decode decoder e mn mx 0 s res s' k res']
          multi_decode_loop_False_attempt [of min_decode max_decode decoder e mn mx 0 s res s' k res']
          f
    by (simp add: multi_decode_def)
  show ?thesis using all zero fail by blast
qed

theorem multi_decode_minimum_only_on_failure_witness:
  "decode_n (uintx32_decode False (mem_of [0x01, 0x02, 0x03])) 3 None None
       0 2 (start_state 10) (\<lambda>_. 0)
     = Some (\<lparr>payload = 2, elem_count = 8, reads = [0, 0, 1, 1]\<rparr>, (\<lambda>_. 0)(0 := 1, 1 := 2))
   \<and> multi_decode 5 2 (uintx32_decode False (mem_of [0x01, 0x02, 0x03])) 3
        (start_state 10) (\<lambda>_. 0) None None
     = (True, \<lparr>payload = 2, elem_count = 8, reads = [0, 0, 1, 1]\<rparr>, 2, (\<lambda>_. 0)(0 := 1, 1 := 2))
   \<and> (2 :: nat) < 5
   \<and> fst (multi_decode 4 5 (uintx32_decode False (mem_of [0x01, 0x02, 0x03, 0xff])) 4
             (start_state 10) (\<lambda>_. 0) None None) = False
   \<and> fst (snd (snd (multi_decode 4 5 (uintx32_decode False (mem_of [0x01, 0x02, 0x03, 0xff])) 4
                       (start_state 10) (\<lambda>_. 0) None None))) = 3
   \<and> (3 :: nat) < 4 \<and> (3 :: nat) < 5"
proof -
  let ?d = "uintx32_decode False (mem_of [0x01, 0x02, 0x03])"
  have d1: "?d 3 (start_state 10) 0 None None
              = (True, \<lparr>payload = 1, elem_count = 9, reads = [0, 0]\<rparr>, 1)"
    by code_simp
  have d2: "?d 3 \<lparr>payload = 1, elem_count = 9, reads = [0, 0]\<rparr> 0 None None
              = (True, \<lparr>payload = 2, elem_count = 8, reads = [0, 0, 1, 1]\<rparr>, 2)"
    by code_simp
  have "decode_n ?d 3 None None 0 2 (start_state 10) (\<lambda>_. 0)
          = decode_n ?d 3 None None 1 1 \<lparr>payload = 1, elem_count = 9, reads = [0, 0]\<rparr>
              ((\<lambda>_. 0)(0 := 1))"
    by (rule decode_n_next [of ?d 3 "start_state 10" "\<lambda>_. 0" 0 None None _ 1 2 1 1])
       (use d1 in simp_all)
  also have "\<dots> = decode_n ?d 3 None None 2 0
                      \<lparr>payload = 2, elem_count = 8, reads = [0, 0, 1, 1]\<rparr>
                      ((\<lambda>_. 0)(0 := 1, 1 := 2))"
    by (rule decode_n_next [of ?d 3 _ "(\<lambda>_. 0)(0 := 1)" 1 None None _ 2 1 0 2])
       (use d2 in simp_all)
  finally have n: "decode_n ?d 3 None None 0 2 (start_state 10) (\<lambda>_. 0)
             = Some (\<lparr>payload = 2, elem_count = 8, reads = [0, 0, 1, 1]\<rparr>, (\<lambda>_. 0)(0 := 1, 1 := 2))"
    by simp
  obtain s' res' where f:
    "multi_decode 4 5 (uintx32_decode False (mem_of [0x01, 0x02, 0x03, 0xff])) 4
       (start_state 10) (\<lambda>_. 0) None None = (False, s', 3, res')"
  proof -
    have "fst (multi_decode 4 5 (uintx32_decode False (mem_of [0x01, 0x02, 0x03, 0xff])) 4
                 (start_state 10) (\<lambda>_. 0) None None) = False"
      "fst (snd (snd (multi_decode 4 5 (uintx32_decode False (mem_of [0x01, 0x02, 0x03, 0xff])) 4
                       (start_state 10) (\<lambda>_. 0) None None))) = 3"
      by code_simp+
    then show ?thesis
      by (cases "multi_decode 4 5 (uintx32_decode False (mem_of [0x01, 0x02, 0x03, 0xff])) 4
                   (start_state 10) (\<lambda>_. 0) None None") (auto intro: that)
  qed
  have "(3 :: nat) < 4 \<and> (3 :: nat) < 5"
    using multi_decode_minimum_only_on_failure
            [THEN conjunct2, THEN conjunct2, rule_format, OF f]
    by simp
  then show ?thesis
    using multi_decode_minimum_only_on_failure [THEN conjunct1, rule_format, OF n, of 5] n f
    by simp
qed

subsection \<open>C10: \<^verbatim>\<open>primx_decode\<close> stores the low byte\<close>

text \<open>
  C10: for a header of major type 7, whenever \<^verbatim>\<open>uint32_decode\<close> delivers a value
  \<open>v\<close> (so \<open>v\<close> satisfies the caller's bounds as an unsigned 32-bit number),
  \<^verbatim>\<open>primx_decode\<close> succeeds and stores \<open>v mod 256\<close> in a destination that is supplied;
  without a destination it succeeds and stores nothing.  A value above 255 is not
  rejected.
\<close>

theorem primx_decode_stores_low_byte:
  assumes mt: "MAJOR_TYPE (mem (payload s)) = CBOR_MAJOR_TYPE_PRIM"
      and dec: "uint32_decode be mem e (s\<lparr>reads := reads s @ [payload s]\<rparr>) 0 mn mx = (True, s1, v)"
  shows "value_in_range_uint32 v mn mx
       \<and> primx_decode be mem e s (Some old) mn mx = (True, s1, Some (ucast v))
       \<and> unat (ucast v :: byte) = unat v mod 256
       \<and> primx_decode be mem e s None mn mx = (True, s1, None)"
proof -
  have "value_in_range_uint32 v mn mx"
    using uint32_decode_True_extract [OF dec] by blast
  moreover have "primx_decode be mem e s p mn mx =
        (True, s1, case p of None \<Rightarrow> None | Some old \<Rightarrow> Some (ucast v))" for p
    using mt dec by (simp add: primx_decode_def deref_payload_def Let_def)
  moreover have "unat (ucast v :: byte) = unat v mod 256"
    by (simp add: unsigned_ucast_eq take_bit_eq_mod)
  ultimately show ?thesis by simp
qed

theorem primx_decode_stores_low_byte_witness:
  "MAJOR_TYPE (mem_of [0xf9, 0x01, 0x02] 0) = CBOR_MAJOR_TYPE_PRIM
   \<and> uint32_decode False (mem_of [0xf9, 0x01, 0x02]) 3 (start_state 1\<lparr>reads := [0]\<rparr>)
        0 (Some 256) (Some 300)
       = (True, \<lparr>payload = 3, elem_count = 0, reads = [0, 0, 2, 1]\<rparr>, 258)
   \<and> primx_decode False (mem_of [0xf9, 0x01, 0x02]) 3 (start_state 1) (Some 0) (Some 256) (Some 300)
       = (True, \<lparr>payload = 3, elem_count = 0, reads = [0, 0, 2, 1]\<rparr>, Some 2)"
proof -
  have m: "MAJOR_TYPE (mem_of [0xf9, 0x01, 0x02] (payload (start_state 1))) = CBOR_MAJOR_TYPE_PRIM"
    by code_simp
  have d: "uint32_decode False (mem_of [0xf9, 0x01, 0x02]) 3
             ((start_state 1)\<lparr>reads := reads (start_state 1) @ [payload (start_state 1)]\<rparr>)
             0 (Some 256) (Some 300)
           = (True, \<lparr>payload = 3, elem_count = 0, reads = [0, 0, 2, 1]\<rparr>, 258)"
    by code_simp
  have p: "payload (start_state 1) = 0" "reads (start_state 1) = []"
    by (simp_all add: start_state_def)
  have u: "(ucast (258 :: 32 word) :: byte) = 2" by simp
  show ?thesis
    using primx_decode_stores_low_byte [OF m d, of 0] m d p u by simp
qed

end
